theory Spec2Isabelle
  imports Complex_Main
begin

section \<open>Grid fields\<close>

text \<open>
  A field is a \<^verbatim>\<open>Float32Array\<close> of \<open>SIZE = (N + 2)\<^sup>2\<close> cells, addressed through
  \<^verbatim>\<open>IX(i, j) = i + j * CSB\<close>. The cells are modelled as real numbers: rounding,
  infinities and NaN of the floating-point cells are outside the model. The resolution
  \<open>N\<close> is a global constant of the source and a parameter here.
\<close>

type_synonym field = "real list"

definition CSB :: "nat \<Rightarrow> nat" where
  "CSB N = N + 2"

definition SIZE :: "nat \<Rightarrow> nat" where
  "SIZE N = CSB N * CSB N"

definition IX :: "nat \<Rightarrow> nat \<Rightarrow> nat \<Rightarrow> nat" where
  "IX N i j = i + j * CSB N"

text \<open>
  The six arrays of the \<^verbatim>\<open>state\<close> object. The solver functions of the source take
  array references; a reference is a value of \<open>buf\<close> and the arrays live in a memory
  \<open>buf \<Rightarrow> field\<close>, so that a call with two references to one array behaves as in
  the source.
\<close>

datatype buf = U | U0 | V | V0 | X | X0

type_synonym mem = "buf \<Rightarrow> field"

definition wr :: "buf \<Rightarrow> nat \<Rightarrow> real \<Rightarrow> mem \<Rightarrow> mem" where
  "wr a k val m = m(a := (m a)[k := val])"

section \<open>Boundary enforcement (sequential variant)\<close>

text \<open>One iteration of the edge loop of \<^verbatim>\<open>setBoundary\<close>, for the index \<open>i\<close>.\<close>

definition set_bnd_edges :: "nat \<Rightarrow> nat \<Rightarrow> nat \<Rightarrow> field \<Rightarrow> field" where
  "set_bnd_edges N b i x0 =
    (let x1 = x0[IX N 0 i := (if b = 1 then - (x0 ! IX N 1 i) else x0 ! IX N 1 i)];
         x2 = x1[IX N (N + 1) i := (if b = 1 then - (x1 ! IX N N i) else x1 ! IX N N i)];
         x3 = x2[IX N i 0 := (if b = 2 then - (x2 ! IX N i 1) else x2 ! IX N i 1)];
         x4 = x3[IX N i (N + 1) := (if b = 2 then - (x3 ! IX N i N) else x3 ! IX N i N)]
     in x4)"

definition set_bnd_corners :: "nat \<Rightarrow> field \<Rightarrow> field" where
  "set_bnd_corners N x0 =
    (let x1 = x0[IX N 0 0 := 0.5 * (x0 ! IX N 1 0 + x0 ! IX N 0 1)];
         x2 = x1[IX N 0 (N + 1) := 0.5 * (x1 ! IX N 1 (N + 1) + x1 ! IX N 0 N)];
         x3 = x2[IX N (N + 1) 0 := 0.5 * (x2 ! IX N N 0 + x2 ! IX N (N + 1) 1)];
         x4 = x3[IX N (N + 1) (N + 1) := 0.5 * (x3 ! IX N N (N + 1) + x3 ! IX N (N + 1) N)]
     in x4)"

text \<open>The body of \<^verbatim>\<open>setBoundary(target, boundary)\<close> on the array it is given.\<close>

definition set_bnd :: "nat \<Rightarrow> nat \<Rightarrow> field \<Rightarrow> field" where
  "set_bnd N b x = set_bnd_corners N (fold (set_bnd_edges N b) [1..<N + 1] x)"

definition setBoundary :: "nat \<Rightarrow> buf \<Rightarrow> nat \<Rightarrow> mem \<Rightarrow> mem" where
  "setBoundary N target boundary m = m(target := set_bnd N boundary (m target))"

section \<open>Linear solver and diffusion (sequential variant)\<close>

text \<open>\<^verbatim>\<open>for (let i = 1; i <= N; i++)\<close>: the loop over the interior indices.\<close>

definition forN :: "nat \<Rightarrow> (nat \<Rightarrow> 'a \<Rightarrow> 'a) \<Rightarrow> 'a \<Rightarrow> 'a" where
  "forN N body s = fold body [1..<N + 1] s"

text \<open>
  The assignment in the inner loop of \<^verbatim>\<open>solveLinear\<close>. It reads \<open>x\<close> from the
  memory as it is at that moment, so cells written earlier in the sweep are read updated.
  In the source \<^verbatim>\<open>1 / c\<close> is infinite at \<open>c = 0\<close>; here it is \<open>0\<close>, and the
  theorems on \<^verbatim>\<open>diffuse\<close> assume a rate and a time step that are not negative.
\<close>

definition lin_cell :: "nat \<Rightarrow> buf \<Rightarrow> buf \<Rightarrow> real \<Rightarrow> real \<Rightarrow> nat \<Rightarrow> nat \<Rightarrow> mem \<Rightarrow> mem" where
  "lin_cell N x x0 a c i j m =
     wr x (IX N i j)
       ((m x0 ! IX N i j +
         a * (m x ! IX N (i - 1) j + m x ! IX N (i + 1) j +
              m x ! IX N i (j - 1) + m x ! IX N i (j + 1))) * (1 / c)) m"

definition lin_sweep :: "nat \<Rightarrow> buf \<Rightarrow> buf \<Rightarrow> real \<Rightarrow> real \<Rightarrow> mem \<Rightarrow> mem" where
  "lin_sweep N x x0 a c m = forN N (\<lambda>i. forN N (\<lambda>j. lin_cell N x x0 a c i j)) m"

definition solveLinear :: "nat \<Rightarrow> buf \<Rightarrow> buf \<Rightarrow> nat \<Rightarrow> real \<Rightarrow> real \<Rightarrow> mem \<Rightarrow> mem" where
  "solveLinear N x x0 boundary a c m =
     fold (\<lambda>k m. setBoundary N x boundary (lin_sweep N x x0 a c m)) [0..<20] m"

definition diffuse :: "nat \<Rightarrow> real \<Rightarrow> buf \<Rightarrow> buf \<Rightarrow> real \<Rightarrow> nat \<Rightarrow> mem \<Rightarrow> mem" where
  "diffuse N dt target source diff boundary m =
     (let a = dt * diff * real N * real N
      in solveLinear N target source boundary a (1 + 4 * a) m)"

section \<open>Advection (sequential variant)\<close>

text \<open>
  \<^verbatim>\<open>x | 0\<close>: the number is truncated towards zero and wrapped into the signed
  32-bit range.
\<close>

definition toInt32 :: "real \<Rightarrow> int" where
  "toInt32 x =
     (let t = (if 0 \<le> x then \<lfloor>x\<rfloor> else \<lceil>x\<rceil>);
          r = t mod 2 ^ 32
      in if 2 ^ 31 \<le> r then r - 2 ^ 32 else r)"

text \<open>The two \<^verbatim>\<open>if\<close> statements that bound a backtraced coordinate.\<close>

definition clamp_pos :: "nat \<Rightarrow> real \<Rightarrow> real" where
  "clamp_pos N x0 =
     (let x1 = (if x0 < 0.5 then 0.5 else x0);
          x2 = (if x1 > real N + 0.5 then real N + 0.5 else x1)
      in x2)"

text \<open>\<^verbatim>\<open>IX\<close> at the integers that the cast gives.\<close>

definition IXi :: "nat \<Rightarrow> int \<Rightarrow> int \<Rightarrow> int" where
  "IXi N i j = i + j * int (CSB N)"

text \<open>
  The value that \<^verbatim>\<open>advect\<close> assigns to a target cell, from the clamped position
  \<open>(x, y)\<close> and the source array.
\<close>

definition bilinear :: "nat \<Rightarrow> field \<Rightarrow> real \<Rightarrow> real \<Rightarrow> real" where
  "bilinear N source x y =
     (let i0 = toInt32 x; i1 = i0 + 1;
          j0 = toInt32 y; j1 = j0 + 1;
          s1 = x - of_int i0; s0 = 1 - s1;
          t1 = y - of_int j0; t0 = 1 - t1
      in s0 * (t0 * source ! nat (IXi N i0 j0) + t1 * source ! nat (IXi N i0 j1)) +
         s1 * (t0 * source ! nat (IXi N i1 j0) + t1 * source ! nat (IXi N i1 j1)))"

definition advect_cell ::
  "nat \<Rightarrow> real \<Rightarrow> buf \<Rightarrow> buf \<Rightarrow> buf \<Rightarrow> buf \<Rightarrow> nat \<Rightarrow> nat \<Rightarrow> mem \<Rightarrow> mem" where
  "advect_cell N dt0 target source u v i j m =
     (let x = clamp_pos N (real i - dt0 * m u ! IX N i j);
          y = clamp_pos N (real j - dt0 * m v ! IX N i j)
      in wr target (IX N i j) (bilinear N (m source) x y) m)"

definition advect ::
  "nat \<Rightarrow> real \<Rightarrow> buf \<Rightarrow> buf \<Rightarrow> buf \<Rightarrow> buf \<Rightarrow> nat \<Rightarrow> mem \<Rightarrow> mem" where
  "advect N dt target source u v boundary m =
     (let dt0 = dt * real N
      in setBoundary N target boundary
           (forN N (\<lambda>i. forN N (\<lambda>j. advect_cell N dt0 target source u v i j)) m))"

section \<open>Projection (sequential variant)\<close>

definition div_cell :: "nat \<Rightarrow> buf \<Rightarrow> buf \<Rightarrow> buf \<Rightarrow> buf \<Rightarrow> nat \<Rightarrow> nat \<Rightarrow> mem \<Rightarrow> mem" where
  "div_cell N u v p dv i j m0 =
     (let h = real N;
          m1 = wr dv (IX N i j)
                 (- 0.5 * h * (m0 u ! IX N (i + 1) j - m0 u ! IX N (i - 1) j +
                               m0 v ! IX N i (j + 1) - m0 v ! IX N i (j - 1))) m0
      in wr p (IX N i j) 0 m1)"

definition grad_cell :: "nat \<Rightarrow> buf \<Rightarrow> buf \<Rightarrow> buf \<Rightarrow> nat \<Rightarrow> nat \<Rightarrow> mem \<Rightarrow> mem" where
  "grad_cell N u v p i j m0 =
     (let h = real N;
          m1 = wr u (IX N i j)
                 (m0 u ! IX N i j -
                  0.5 * (m0 p ! IX N (i + 1) j - m0 p ! IX N (i - 1) j) * (1 / h)) m0
      in wr v (IX N i j)
           (m1 v ! IX N i j -
            0.5 * (m1 p ! IX N i (j + 1) - m1 p ! IX N i (j - 1)) * (1 / h)) m1)"

definition project :: "nat \<Rightarrow> buf \<Rightarrow> buf \<Rightarrow> buf \<Rightarrow> buf \<Rightarrow> mem \<Rightarrow> mem" where
  "project N u v p dv m0 =
     (let m1 = forN N (\<lambda>i. forN N (\<lambda>j. div_cell N u v p dv i j)) m0;
          m2 = setBoundary N dv 0 m1;
          m3 = setBoundary N p 0 m2;
          m4 = solveLinear N p dv 0 1 4 m3;
          m5 = forN N (\<lambda>i. forN N (\<lambda>j. grad_cell N u v p i j)) m4;
          m6 = setBoundary N u 1 m5
      in setBoundary N v 2 m6)"

section \<open>One tick (sequential variant)\<close>

text \<open>
  The \<^verbatim>\<open>state\<close> object: its six arrays and the constants the solver reads. The
  property \<^verbatim>\<open>diffuse\<close> is named \<open>diffuse_rate\<close>, the function has the name.
\<close>

record state =
  arrays :: mem
  diffuse_rate :: real
  viscocity :: real
  densityDecay :: real

definition densityStep :: "nat \<Rightarrow> real \<Rightarrow> state \<Rightarrow> state" where
  "densityStep N dt s0 =
     (let s1 = s0\<lparr>arrays := diffuse N dt X0 X (diffuse_rate s0) 0 (arrays s0)\<rparr>
      in s1\<lparr>arrays := advect N dt X X0 U V 0 (arrays s1)\<rparr>)"

definition velocityStep :: "nat \<Rightarrow> real \<Rightarrow> state \<Rightarrow> state" where
  "velocityStep N dt s0 =
     (let s1 = s0\<lparr>arrays := diffuse N dt U0 U (viscocity s0) 1 (arrays s0)\<rparr>;
          s2 = s1\<lparr>arrays := diffuse N dt V0 V (viscocity s1) 2 (arrays s1)\<rparr>;
          s3 = s2\<lparr>arrays := project N U0 V0 U V (arrays s2)\<rparr>;
          s4 = s3\<lparr>arrays := advect N dt U U0 U0 V0 1 (arrays s3)\<rparr>;
          s5 = s4\<lparr>arrays := advect N dt V V0 U0 V0 2 (arrays s4)\<rparr>
      in s5\<lparr>arrays := project N U V U0 V0 (arrays s5)\<rparr>)"

text \<open>The body of the loop of \<^verbatim>\<open>fadeStep\<close> at the index \<open>i\<close>.\<close>

definition fade_at :: "real \<Rightarrow> nat \<Rightarrow> field \<Rightarrow> field" where
  "fade_at decay i x0 =
     (let x1 = x0[i := x0 ! i - decay];
          x2 = (if x1 ! i < 0 then x1[i := 0] else x1);
          x3 = (if x2 ! i > 255 then x2[i := 255] else x2)
      in x3)"

definition fadeStep :: "state \<Rightarrow> state" where
  "fadeStep s =
     s\<lparr>arrays := (arrays s)
        (X := fold (fade_at (densityDecay s)) [0..<length (arrays s X)] (arrays s X))\<rparr>"

definition update :: "nat \<Rightarrow> real \<Rightarrow> state \<Rightarrow> state" where
  "update N dt s = fadeStep (densityStep N dt (velocityStep N dt s))"

section \<open>The parallel variant: textures and fragment programs\<close>

text \<open>
  In the WebGL variant every field is a square texture of \<open>size = CSB\<close> texels with a
  second texture \<^verbatim>\<open>Next\<close> beside it. The object \<^verbatim>\<open>textures\<close> maps the keys
  \<^verbatim>\<open>u\<close>, \<^verbatim>\<open>uNext\<close>, ... to textures; here it maps a key to the content of its
  texture, and exchanging two texture objects exchanges the contents.
\<close>

datatype key = Cur buf | Next buf

record gpu =
  size_gl :: nat
  textures :: "key \<Rightarrow> field"

text \<open>
  \<^verbatim>\<open>texelFetch(t, ivec2(x, y), 0).r\<close>. A fetch outside the texture gives zero in
  WebGL 2.
\<close>

definition texelFetch :: "nat \<Rightarrow> field \<Rightarrow> int \<Rightarrow> int \<Rightarrow> real" where
  "texelFetch sz t x y =
     (if 0 \<le> x \<and> x < int sz \<and> 0 \<le> y \<and> y < int sz then t ! (nat x + nat y * sz) else 0)"

text \<open>
  Drawing the quad runs the fragment program once for every texel \<open>(x, y)\<close> of the
  target, all reading the source textures as they were before the pass.
\<close>

definition draw :: "nat \<Rightarrow> (int \<Rightarrow> int \<Rightarrow> real) \<Rightarrow> field" where
  "draw sz frag = map (\<lambda>k. frag (int (k mod sz)) (int (k div sz))) [0..<sz * sz]"

text \<open>The GLSL built-ins \<^verbatim>\<open>clamp\<close> and \<^verbatim>\<open>int\<close> (of a float).\<close>

definition clamp_glsl :: "real \<Rightarrow> real \<Rightarrow> real \<Rightarrow> real" where
  "clamp_glsl x lo hi = min (max x lo) hi"

definition int_glsl :: "real \<Rightarrow> int" where
  "int_glsl x = (if 0 \<le> x then \<lfloor>x\<rfloor> else \<lceil>x\<rceil>)"

definition setBoundary_frag :: "nat \<Rightarrow> field \<Rightarrow> nat \<Rightarrow> int \<Rightarrow> int \<Rightarrow> real" where
  "setBoundary_frag sz u_x u_b px py =
     (let sx = int sz - 2; sy = int sz - 2;
          get = texelFetch sz u_x;
          c0 = get px py;
          c1 = (if px = 0 \<and> py \<ge> 1 then (if u_b = 1 then - 1 else 1) * get 1 py else c0);
          c2 = (if px = sx + 1 \<and> py \<ge> 1 then (if u_b = 1 then - 1 else 1) * get sx py else c1);
          c3 = (if px \<ge> 1 \<and> py = 0 then (if u_b = 2 then - 1 else 1) * get px 1 else c2);
          c4 = (if px \<ge> 1 \<and> py = sy + 1 then (if u_b = 2 then - 1 else 1) * get px sy else c3);
          c5 = (if px = 0 \<and> py = 0 then 0.5 * (get 1 0 + get 0 1) else c4);
          c6 = (if px = 0 \<and> py = sy + 1 then 0.5 * (get 1 (sy + 1) + get 0 sy) else c5);
          c7 = (if px = sx + 1 \<and> py = 0 then 0.5 * (get sx 0 + get (sx + 1) 1) else c6);
          c8 = (if px = sx + 1 \<and> py = sy + 1
                then 0.5 * (get sx (sy + 1) + get (sx + 1) sy) else c7)
      in c8)"

definition solveLinear_frag ::
  "nat \<Rightarrow> field \<Rightarrow> field \<Rightarrow> real \<Rightarrow> real \<Rightarrow> int \<Rightarrow> int \<Rightarrow> real" where
  "solveLinear_frag sz u_x u_x0 u_a u_c px py =
     (let l = texelFetch sz u_x (px - 1) py;
          r = texelFetch sz u_x (px + 1) py;
          t = texelFetch sz u_x px (py - 1);
          b = texelFetch sz u_x px (py + 1);
          x0 = texelFetch sz u_x0 px py
      in (u_a / u_c) * (x0 + l + r + t + b))"

definition advect_frag ::
  "nat \<Rightarrow> field \<Rightarrow> field \<Rightarrow> field \<Rightarrow> real \<Rightarrow> int \<Rightarrow> int \<Rightarrow> real" where
  "advect_frag sz u_source u_u u_v u_dt0 px py =
     (let sx = int sz - 2; sy = int sz - 2;
          x = clamp_glsl (of_int px - u_dt0 * texelFetch sz u_u px py) 0.5 (of_int sx);
          y = clamp_glsl (of_int py - u_dt0 * texelFetch sz u_v px py) 0.5 (of_int sy);
          i0 = int_glsl x; i1 = i0 + 1;
          j0 = int_glsl y; j1 = j0 + 1;
          s1 = x - of_int i0; s0 = 1 - s1;
          t1 = y - of_int j0; t0 = 1 - t1;
          a = texelFetch sz u_source i0 j0;
          b = texelFetch sz u_source i0 j1;
          c = texelFetch sz u_source i1 j0;
          d = texelFetch sz u_source i1 j1
      in s0 * (t0 * a + t1 * b) + s1 * (t0 * c + t1 * d))"

definition divergence_frag :: "nat \<Rightarrow> field \<Rightarrow> field \<Rightarrow> real \<Rightarrow> int \<Rightarrow> int \<Rightarrow> real" where
  "divergence_frag sz u_u u_v u_h px py =
     (let l = texelFetch sz u_u (px - 1) py;
          r = texelFetch sz u_u (px + 1) py;
          t = texelFetch sz u_v px (py - 1);
          b = texelFetch sz u_v px (py + 1)
      in - 0.5 * u_h * (r - l + b - t))"

definition velocity_frag ::
  "nat \<Rightarrow> field \<Rightarrow> field \<Rightarrow> real \<Rightarrow> nat \<Rightarrow> int \<Rightarrow> int \<Rightarrow> real" where
  "velocity_frag sz u_uv u_p u_h u_direction px py =
     (let uv = texelFetch sz u_uv px py;
          l = texelFetch sz u_p (px - 1) py;
          r = texelFetch sz u_p (px + 1) py;
          t = texelFetch sz u_p px (py - 1);
          b = texelFetch sz u_p px (py + 1)
      in if u_direction = 0 then uv - 0.5 * (r - l) * 1 / u_h
         else uv - 0.5 * (b - t) * 1 / u_h)"

definition fade_frag :: "nat \<Rightarrow> field \<Rightarrow> real \<Rightarrow> int \<Rightarrow> int \<Rightarrow> real" where
  "fade_frag sz u_x u_density_decay px py =
     (let x0 = texelFetch sz u_x px py;
          x1 = x0 - u_density_decay
      in clamp_glsl x1 0 255)"

section \<open>The parallel variant: passes of the class GL\<close>

text \<open>
  A pass that writes the \<^verbatim>\<open>Next\<close> texture of its target and then exchanges the two
  textures of the target.
\<close>

definition swap_into :: "buf \<Rightarrow> field \<Rightarrow> gpu \<Rightarrow> gpu" where
  "swap_into target out g =
     g\<lparr>textures := (textures g)(Cur target := out, Next target := textures g (Cur target))\<rparr>"

definition GL_solveLinear :: "buf \<Rightarrow> buf \<Rightarrow> real \<Rightarrow> real \<Rightarrow> gpu \<Rightarrow> gpu" where
  "GL_solveLinear x x0 a c g =
     swap_into x
       (draw (size_gl g)
          (solveLinear_frag (size_gl g) (textures g (Cur x)) (textures g (Cur x0)) a c)) g"

text \<open>
  \<^verbatim>\<open>divergence\<close> and \<^verbatim>\<open>advect\<close> draw into the current texture of their target.
  Their callers pass a target that is none of the textures read; a pass whose target is
  also read is a feedback loop in WebGL, with no defined result, and no theorem below is
  about such a pass.
\<close>

definition GL_divergence :: "real \<Rightarrow> buf \<Rightarrow> buf \<Rightarrow> buf \<Rightarrow> gpu \<Rightarrow> gpu" where
  "GL_divergence h target u v g =
     g\<lparr>textures := (textures g)
        (Cur target := draw (size_gl g)
           (divergence_frag (size_gl g) (textures g (Cur u)) (textures g (Cur v)) h))\<rparr>"

definition GL_velocity :: "real \<Rightarrow> buf \<Rightarrow> buf \<Rightarrow> nat \<Rightarrow> gpu \<Rightarrow> gpu" where
  "GL_velocity h uv p direction g =
     swap_into uv
       (draw (size_gl g)
          (velocity_frag (size_gl g) (textures g (Cur uv)) (textures g (Cur p)) h direction)) g"

definition GL_advect :: "real \<Rightarrow> buf \<Rightarrow> buf \<Rightarrow> buf \<Rightarrow> buf \<Rightarrow> gpu \<Rightarrow> gpu" where
  "GL_advect dt0 target source u v g =
     g\<lparr>textures := (textures g)
        (Cur target := draw (size_gl g)
           (advect_frag (size_gl g) (textures g (Cur source)) (textures g (Cur u))
              (textures g (Cur v)) dt0))\<rparr>"

definition GL_setBoundary :: "buf \<Rightarrow> nat \<Rightarrow> gpu \<Rightarrow> gpu" where
  "GL_setBoundary target boundary g =
     swap_into target
       (draw (size_gl g) (setBoundary_frag (size_gl g) (textures g (Cur target)) boundary)) g"

definition GL_fade :: "real \<Rightarrow> gpu \<Rightarrow> gpu" where
  "GL_fade decay g =
     swap_into X (draw (size_gl g) (fade_frag (size_gl g) (textures g (Cur X)) decay)) g"

text \<open>The one exception of the solver: \<^verbatim>\<open>new Error("Can't copy to self.")\<close>.\<close>

datatype error = CantCopyToSelf

definition GL_copyPixels :: "buf \<Rightarrow> buf \<Rightarrow> gpu \<Rightarrow> error + gpu" where
  "GL_copyPixels source target g =
     (if source = target then Inl CantCopyToSelf
      else Inr (g\<lparr>textures := (textures g)(Cur target := textures g (Cur source))\<rparr>))"

section \<open>The parallel variant: the solver\<close>

definition solveLinearJacobi :: "buf \<Rightarrow> buf \<Rightarrow> nat \<Rightarrow> real \<Rightarrow> real \<Rightarrow> gpu \<Rightarrow> gpu" where
  "solveLinearJacobi xk x0k boundary a c g =
     fold (\<lambda>k g. GL_setBoundary xk boundary (GL_solveLinear xk x0k a c g)) [0..<20] g"

definition diffuse_gl :: "buf \<Rightarrow> buf \<Rightarrow> nat \<Rightarrow> gpu \<Rightarrow> error + gpu" where
  "diffuse_gl target source boundary g =
     GL_copyPixels source target (GL_setBoundary source boundary g)"

definition advect_gl ::
  "nat \<Rightarrow> real \<Rightarrow> buf \<Rightarrow> buf \<Rightarrow> buf \<Rightarrow> buf \<Rightarrow> nat \<Rightarrow> gpu \<Rightarrow> gpu" where
  "advect_gl N dt target source u v boundary g =
     (let dt0 = dt * real N
      in GL_setBoundary target boundary (GL_advect dt0 target source u v g))"

definition project_gl :: "nat \<Rightarrow> buf \<Rightarrow> buf \<Rightarrow> buf \<Rightarrow> buf \<Rightarrow> gpu \<Rightarrow> gpu" where
  "project_gl N u v p dv g0 =
     (let h = real N;
          g1 = GL_divergence h dv u v g0;
          g2 = GL_setBoundary dv 0 g1;
          g3 = GL_setBoundary p 0 g2;
          g4 = solveLinearJacobi p dv 0 1 4 g3;
          g5 = GL_velocity h u p 0 g4;
          g6 = GL_velocity h v p 1 g5;
          g7 = GL_setBoundary u 1 g6
      in GL_setBoundary v 2 g7)"

text \<open>Sequencing of calls that may throw: the first exception ends the sequence.\<close>

definition and_then :: "error + 'a \<Rightarrow> ('a \<Rightarrow> error + 'b) \<Rightarrow> error + 'b" where
  "and_then r f = (case r of Inl e \<Rightarrow> Inl e | Inr g \<Rightarrow> f g)"

definition densityStep_gl :: "nat \<Rightarrow> real \<Rightarrow> gpu \<Rightarrow> error + gpu" where
  "densityStep_gl N dt g =
     and_then (diffuse_gl X0 X 0 g) (\<lambda>g. Inr (advect_gl N dt X X0 U V 0 g))"

definition velocityStep_gl :: "nat \<Rightarrow> real \<Rightarrow> gpu \<Rightarrow> error + gpu" where
  "velocityStep_gl N dt g =
     and_then (diffuse_gl U0 U 1 g) (\<lambda>g.
     and_then (diffuse_gl V0 V 2 g) (\<lambda>g.
       Inr (project_gl N U V U0 V0
             (advect_gl N dt V V0 U0 V0 2
               (advect_gl N dt U U0 U0 V0 1
                 (project_gl N U0 V0 U V g))))))"

text \<open>
  \<^verbatim>\<open>update\<close> of the parallel variant. The passes that add the fan and mouse sources
  come first; they are the argument \<open>forces\<close>. \<open>decay\<close> is
  \<^verbatim>\<open>state.densityDecay\<close>.
\<close>

definition update_gl :: "nat \<Rightarrow> real \<Rightarrow> real \<Rightarrow> (gpu \<Rightarrow> gpu) \<Rightarrow> gpu \<Rightarrow> error + gpu" where
  "update_gl N dt decay forces g =
     and_then (velocityStep_gl N dt (forces g)) (\<lambda>g.
     and_then (densityStep_gl N dt g) (\<lambda>g.
       Inr (GL_fade decay g)))"

section \<open>Auxiliary definitions for the statements\<close>

text \<open>The value copied into an edge cell: negated when the kind \<open>b\<close> is \<open>k\<close>.\<close>

definition refl :: "nat \<Rightarrow> nat \<Rightarrow> real \<Rightarrow> real" where
  "refl b k val = (if b = k then - val else val)"

text \<open>
  The value of the cell \<open>(a, c)\<close> after the edge loop of \<^verbatim>\<open>setBoundary\<close>, from the
  array \<open>x\<close> before it.
\<close>

definition bnd_val :: "nat \<Rightarrow> nat \<Rightarrow> field \<Rightarrow> nat \<Rightarrow> nat \<Rightarrow> real" where
  "bnd_val N b x a c =
     (if a = 0 \<and> 1 \<le> c \<and> c \<le> N then refl b 1 (x ! IX N 1 c)
      else if a = N + 1 \<and> 1 \<le> c \<and> c \<le> N then refl b 1 (x ! IX N N c)
      else if c = 0 \<and> 1 \<le> a \<and> a \<le> N then refl b 2 (x ! IX N a 1)
      else if c = N + 1 \<and> 1 \<le> a \<and> a \<le> N then refl b 2 (x ! IX N a N)
      else x ! IX N a c)"

text \<open>Small inputs for the examples: a grid of resolution 1 and its texture.\<close>

definition ex_cells :: field where
  "ex_cells = [1, 2, 3, 4, 5, 6, 7, 8, 9]"

definition ex_mem :: mem where
  "ex_mem = (\<lambda>_. ex_cells)"

definition ex_gpu :: gpu where
  "ex_gpu = \<lparr>size_gl = 3, textures = (\<lambda>_. ex_cells)\<rparr>"

text \<open>
  Resolution 2: the density texture after the fan source of the first tick, with
  \<^verbatim>\<open>sourceDensity = 12\<close>; the source writes the column \<open>x = 1\<close>.
\<close>

definition fan_cells :: field where
  "fan_cells = [0, 0, 0, 0,  0, 60, 0, 0,  0, 120, 0, 0,  0, 60, 0, 0]"

definition fan_gpu :: gpu where
  "fan_gpu = \<lparr>size_gl = 4, textures = (\<lambda>_. fan_cells)\<rparr>"

definition fan_state :: state where
  "fan_state =
     \<lparr>arrays = (\<lambda>_. fan_cells), diffuse_rate = 0, viscocity = 0, densityDecay = 1 / 10\<rparr>"

definition self_mem :: mem where
  "self_mem = (\<lambda>_. replicate 9 0)(X := [1, 2, 3, 4, 5, 6, 7, 8, 9])"

text \<open>
  The loops of the solver on one array. \<open>cells_upd N F x\<close> writes \<open>F i j\<close> of the old
  value into every interior cell \<open>(i, j)\<close> of \<open>x\<close>, in the order of the loops of the
  source.
\<close>

definition cells_upd :: "nat \<Rightarrow> (nat \<Rightarrow> nat \<Rightarrow> real \<Rightarrow> real) \<Rightarrow> field \<Rightarrow> field" where
  "cells_upd N F x = forN N (\<lambda>i. forN N (\<lambda>j x. x[IX N i j := F i j (x ! IX N i j)])) x"

text \<open>The relaxation of \<^verbatim>\<open>solveLinear\<close> on the array \<open>x\<close>, with \<open>x0\<close> another array.\<close>

definition lin_cell_arr :: "nat \<Rightarrow> field \<Rightarrow> real \<Rightarrow> real \<Rightarrow> nat \<Rightarrow> nat \<Rightarrow> field \<Rightarrow> field" where
  "lin_cell_arr N x0 a c i j x =
     x[IX N i j :=
         (x0 ! IX N i j +
          a * (x ! IX N (i - 1) j + x ! IX N (i + 1) j +
               x ! IX N i (j - 1) + x ! IX N i (j + 1))) * (1 / c)]"

definition lin_sweep_arr :: "nat \<Rightarrow> field \<Rightarrow> real \<Rightarrow> real \<Rightarrow> field \<Rightarrow> field" where
  "lin_sweep_arr N x0 a c x = forN N (\<lambda>i. forN N (\<lambda>j. lin_cell_arr N x0 a c i j)) x"

definition solve_arr :: "nat \<Rightarrow> nat \<Rightarrow> field \<Rightarrow> real \<Rightarrow> real \<Rightarrow> field \<Rightarrow> field" where
  "solve_arr N b x0 a c x = ((\<lambda>x. set_bnd N b (lin_sweep_arr N x0 a c x)) ^^ 20) x"

text \<open>
  The value that C3 gives to the target cell \<open>(i, j)\<close>: the bilinear interpolation of
  \<open>source\<close> at the backtraced position, clamped to \<open>[0.5, N + 0.5]\<close>.
\<close>

definition advect_claimed ::
  "nat \<Rightarrow> real \<Rightarrow> field \<Rightarrow> field \<Rightarrow> field \<Rightarrow> nat \<Rightarrow> nat \<Rightarrow> real" where
  "advect_claimed N dt source u v i j =
     (let x = min (real N + 0.5) (max 0.5 (real i - dt * real N * u ! IX N i j));
          y = min (real N + 0.5) (max 0.5 (real j - dt * real N * v ! IX N i j));
          i0 = \<lfloor>x\<rfloor>; i1 = i0 + 1; j0 = \<lfloor>y\<rfloor>; j1 = j0 + 1;
          s1 = x - of_int i0; s0 = 1 - s1; t1 = y - of_int j0; t0 = 1 - t1
      in s0 * (t0 * source ! IX N (nat i0) (nat j0) + t1 * source ! IX N (nat i0) (nat j1)) +
         s1 * (t0 * source ! IX N (nat i1) (nat j0) + t1 * source ! IX N (nat i1) (nat j1)))"

text \<open>
  Resolution 1: a horizontal velocity of \<open>- 4\<close> in the cell, with the ring that kind 1
  gives it, and no vertical velocity.
\<close>

definition wall_cells :: field where
  "wall_cells = [0, - 4, 0,  4, - 4, 4,  0, - 4, 0]"

definition wall_mem :: mem where
  "wall_mem = (\<lambda>_. replicate 9 0)(U0 := wall_cells)"

definition wall_gpu :: gpu where
  "wall_gpu = \<lparr>size_gl = 3, textures = (\<lambda>_. replicate 9 0)(Cur U0 := wall_cells)\<rparr>"

text \<open>
  One relaxation sweep as C2 states it, for the sequential variant: \<open>y\<close> is the array
  \<open>x\<close> after a sweep. Every interior cell is the quotient of C2, where the neighbours
  \<open>(i - 1, j)\<close> and \<open>(i, j - 1)\<close> are read after the sweep has passed them and the
  neighbours \<open>(i + 1, j)\<close> and \<open>(i, j + 1)\<close> before; all other cells are unchanged.
\<close>

definition gs_sweep :: "nat \<Rightarrow> field \<Rightarrow> real \<Rightarrow> real \<Rightarrow> field \<Rightarrow> field \<Rightarrow> bool" where
  "gs_sweep N x0 a c x y \<longleftrightarrow>
     length y = length x \<and>
     (\<forall>i \<in> {1..N}. \<forall>j \<in> {1..N}.
        y ! IX N i j =
          (x0 ! IX N i j +
           a * (y ! IX N (i - 1) j + x ! IX N (i + 1) j +
                y ! IX N i (j - 1) + x ! IX N i (j + 1))) / c) \<and>
     (\<forall>i \<in> {0..N + 1}. \<forall>j \<in> {0..N + 1}.
        (1 \<le> i \<and> i \<le> N \<and> 1 \<le> j \<and> j \<le> N) \<or> y ! IX N i j = x ! IX N i j)"

text \<open>
  The relaxation that C2 ascribes to the parallel variant: 20 sweeps, each writing every
  interior cell from the array as it was when the sweep began, and each followed by the
  boundary enforcement.
\<close>

definition sweep_claimed :: "nat \<Rightarrow> field \<Rightarrow> real \<Rightarrow> real \<Rightarrow> field \<Rightarrow> field" where
  "sweep_claimed N x0 a c x =
     cells_upd N
       (\<lambda>i j old. (x0 ! IX N i j +
                    a * (x ! IX N (i - 1) j + x ! IX N (i + 1) j +
                         x ! IX N i (j - 1) + x ! IX N i (j + 1))) / c) x"

definition diffuse_claimed :: "nat \<Rightarrow> real \<Rightarrow> real \<Rightarrow> nat \<Rightarrow> field \<Rightarrow> field \<Rightarrow> field" where
  "diffuse_claimed N dt kappa b x0 x =
     (let a = dt * kappa * real N * real N; c = 1 + 4 * a
      in ((\<lambda>x. set_bnd N b (sweep_claimed N x0 a c x)) ^^ 20) x)"

text \<open>Resolution 1: a density of 1 in the cell, and empty scratch fields.\<close>

definition one_cells :: field where
  "one_cells = [0, 0, 0,  0, 1, 0,  0, 0, 0]"

definition one_mem :: mem where
  "one_mem = (\<lambda>_. replicate 9 0)(X := one_cells)"

definition one_gpu :: gpu where
  "one_gpu = \<lparr>size_gl = 3, textures = (\<lambda>_. replicate 9 0)(Cur X := one_cells)\<rparr>"

text \<open>
  The discrete divergence of the velocity arrays \<open>u\<close> and \<open>v\<close> at the interior cell
  \<open>(i, j)\<close>, with the central differences of \<^verbatim>\<open>project\<close>.
\<close>

definition divergence_at :: "nat \<Rightarrow> field \<Rightarrow> field \<Rightarrow> nat \<Rightarrow> nat \<Rightarrow> real" where
  "divergence_at N u v i j =
     - 0.5 * real N * ((u ! IX N (i + 1) j - u ! IX N (i - 1) j) +
                       (v ! IX N i (j + 1) - v ! IX N i (j - 1)))"

text \<open>
  The four arrays after \<^verbatim>\<open>project\<close>, from the four arrays before it, when the four
  are different arrays: the divergence, the pressure after the 20 sweeps, and the two
  corrected velocity components.
\<close>

definition div_arr :: "nat \<Rightarrow> field \<Rightarrow> field \<Rightarrow> field \<Rightarrow> field" where
  "div_arr N u v dv =
     set_bnd N 0 (cells_upd N (\<lambda>i j old.
       - 0.5 * real N * (u ! IX N (i + 1) j - u ! IX N (i - 1) j +
                         v ! IX N i (j + 1) - v ! IX N i (j - 1))) dv)"

definition pressure_arr :: "nat \<Rightarrow> field \<Rightarrow> field \<Rightarrow> field" where
  "pressure_arr N d p = solve_arr N 0 d 1 4 (set_bnd N 0 (cells_upd N (\<lambda>i j old. 0) p))"

definition grad_u_arr :: "nat \<Rightarrow> field \<Rightarrow> field \<Rightarrow> field" where
  "grad_u_arr N p u =
     set_bnd N 1 (cells_upd N (\<lambda>i j old.
       old - 0.5 * (p ! IX N (i + 1) j - p ! IX N (i - 1) j) * (1 / real N)) u)"

definition grad_v_arr :: "nat \<Rightarrow> field \<Rightarrow> field \<Rightarrow> field" where
  "grad_v_arr N p v =
     set_bnd N 2 (cells_upd N (\<lambda>i j old.
       old - 0.5 * (p ! IX N i (j + 1) - p ! IX N i (j - 1)) * (1 / real N)) v)"

text \<open>
  Resolution 4: a horizontal velocity that alternates between 1 and \<open>- 1\<close> from column to
  column, with the ring that kind 1 gives it. Its discrete divergence is 0 in every
  interior cell.
\<close>

definition alt_cells :: field where
  "alt_cells =
     [0, 1, - 1, 1, - 1, 0,
      - 1, 1, - 1, 1, - 1, 1,
      - 1, 1, - 1, 1, - 1, 1,
      - 1, 1, - 1, 1, - 1, 1,
      - 1, 1, - 1, 1, - 1, 1,
      0, 1, - 1, 1, - 1, 0]"

definition alt_mem :: mem where
  "alt_mem = (\<lambda>_. replicate 36 0)(U := alt_cells)"

text \<open>
  Resolution 4: the horizontal velocity is 1 in the cell \<open>(2, 2)\<close> and 0 in every other
  cell, the vertical velocity is 0. The other lists are the divergence that
  \<^verbatim>\<open>project\<close> computes from this field, and the pressure after each 5 of the 20 sweeps.
\<close>

definition imp_cells :: field where
  "imp_cells =
     [0, 0, 0, 0, 0, 0,
      0, 0, 0, 0, 0, 0,
      0, 0, 1, 0, 0, 0,
      0, 0, 0, 0, 0, 0,
      0, 0, 0, 0, 0, 0,
      0, 0, 0, 0, 0, 0]"

definition imp_mem :: mem where
  "imp_mem = (\<lambda>_. replicate 36 0)(U := imp_cells)"

definition imp_div :: field where
  "imp_div =
     [0, 0, 0, 0, 0, 0,
      0, 0, 0, 0, 0, 0,
      - 2, - 2, 0, 2, 0, 0,
      0, 0, 0, 0, 0, 0,
      0, 0, 0, 0, 0, 0,
      0, 0, 0, 0, 0, 0]"

definition imp_pressure_5 :: field where
  "imp_pressure_5 =
     [- (13929 / 32768),
      - (13929 / 32768),
      - (1807 / 16384),
      115173 / 524288,
      224625 / 1048576,
      224625 / 1048576,
      - (13929 / 32768),
      - (13929 / 32768),
      - (1807 / 16384),
      115173 / 524288,
      224625 / 1048576,
      224625 / 1048576,
      - (124083 / 131072),
      - (124083 / 131072),
      - (34087 / 262144),
      1346723 / 2097152,
      2781079 / 8388608,
      2781079 / 8388608,
      - (50625 / 131072),
      - (50625 / 131072),
      - (104087 / 1048576),
      1624913 / 8388608,
      1657779 / 8388608,
      1657779 / 8388608,
      - (405079 / 2097152),
      - (405079 / 2097152),
      - (619891 / 8388608),
      1140769 / 16777216,
      7568695 / 67108864,
      7568695 / 67108864,
      - (405079 / 2097152),
      - (405079 / 2097152),
      - (619891 / 8388608),
      1140769 / 16777216,
      7568695 / 67108864,
      7568695 / 67108864]"

definition imp_pressure_10 :: field where
  "imp_pressure_10 =
     [- (20147329259 / 34359738368),
      - (20147329259 / 34359738368),
      - (5440200219 / 34359738368),
      152310663101 / 549755813888,
      181410793623 / 549755813888,
      181410793623 / 549755813888,
      - (20147329259 / 34359738368),
      - (20147329259 / 34359738368),
      - (5440200219 / 34359738368),
      152310663101 / 549755813888,
      181410793623 / 549755813888,
      181410793623 / 549755813888,
      - (147118989305 / 137438953472),
      - (147118989305 / 137438953472),
      - (5838363361 / 34359738368),
      1505099585381 / 2199023255552,
      3700601298993 / 8796093022208,
      3700601298993 / 8796093022208,
      - (133823266175 / 274877906944),
      - (133823266175 / 274877906944),
      - (37114052807 / 274877906944),
      1972686213075 / 8796093022208,
      4696129340749 / 17592186044416,
      4696129340749 / 17592186044416,
      - (623933469577 / 2199023255552),
      - (623933469577 / 2199023255552),
      - (952858119835 / 8796093022208),
      1626003574371 / 17592186044416,
      1513555120473 / 8796093022208,
      1513555120473 / 8796093022208,
      - (623933469577 / 2199023255552),
      - (623933469577 / 2199023255552),
      - (952858119835 / 8796093022208),
      1626003574371 / 17592186044416,
      1513555120473 / 8796093022208,
      1513555120473 / 8796093022208]"

definition imp_pressure_15 :: field where
  "imp_pressure_15 =
     [- (22783258162708245 / 36028797018963968),
      - (22783258162708245 / 36028797018963968),
      - (1561638941318195 / 9007199254740992),
      169417756010851157 / 576460752303423488,
      421373110897751071 / 1152921504606846976,
      421373110897751071 / 1152921504606846976,
      - (22783258162708245 / 36028797018963968),
      - (22783258162708245 / 36028797018963968),
      - (1561638941318195 / 9007199254740992),
      169417756010851157 / 576460752303423488,
      421373110897751071 / 1152921504606846976,
      421373110897751071 / 1152921504606846976,
      - (159766333074453431 / 144115188075855872),
      - (159766333074453431 / 144115188075855872),
      - (52751947056651501 / 288230376151711744),
      1608051667621958799 / 2305843009213693952,
      4140956990735579923 / 9223372036854775808,
      4140956990735579923 / 9223372036854775808,
      - (9381264619412857 / 18014398509481984),
      - (9381264619412857 / 18014398509481984),
      - (169995699974504757 / 1152921504606846976),
      2161359672857438717 / 9223372036854775808,
      334695338026578547 / 1152921504606846976,
      334695338026578547 / 1152921504606846976,
      - (728499300649876067 / 2305843009213693952),
      - (728499300649876067 / 2305843009213693952),
      - (1112623644504472323 / 9223372036854775808),
      1863777713414289229 / 18446744073709551616,
      14246014983829844381 / 73786976294838206464,
      14246014983829844381 / 73786976294838206464,
      - (728499300649876067 / 2305843009213693952),
      - (728499300649876067 / 2305843009213693952),
      - (1112623644504472323 / 9223372036854775808),
      1863777713414289229 / 18446744073709551616,
      14246014983829844381 / 73786976294838206464,
      14246014983829844381 / 73786976294838206464]"

definition imp_pressure_20 :: field where
  "imp_pressure_20 =
     [- (24432738940272256101703 / 37778931862957161709568),
      - (24432738940272256101703 / 37778931862957161709568),
      - (6728550587090432907457 / 37778931862957161709568),
      180872600708113358236845 / 604462909807314587353088,
      113864288814568525512253 / 302231454903657293676544,
      113864288814568525512253 / 302231454903657293676544,
      - (24432738940272256101703 / 37778931862957161709568),
      - (24432738940272256101703 / 37778931862957161709568),
      - (6728550587090432907457 / 37778931862957161709568),
      180872600708113358236845 / 604462909807314587353088,
      113864288814568525512253 / 302231454903657293676544,
      113864288814568525512253 / 302231454903657293676544,
      - (169381188314034762122637 / 151115727451828646838272),
      - (169381188314034762122637 / 151115727451828646838272),
      - (28295894344917652623715 / 151115727451828646838272),
      1696256908355591327390337 / 2417851639229258349412352,
      4430382691554085171162397 / 9671406556917033397649408,
      4430382691554085171162397 / 9671406556917033397649408,
      - (160789836904393440170981 / 302231454903657293676544),
      - (160789836904393440170981 / 302231454903657293676544),
      - (91614434132726561278857 / 604462909807314587353088),
      2298529544498960396242735 / 9671406556917033397649408,
      5764567817897612873166495 / 19342813113834066795298816,
      5764567817897612873166495 / 19342813113834066795298816,
      - (790153456996103545347653 / 2417851639229258349412352),
      - (790153456996103545347653 / 2417851639229258349412352),
      - (1206603241889079502204587 / 9671406556917033397649408),
      2010360215127745107418175 / 19342813113834066795298816,
      7741560053203367234147091 / 38685626227668133590597632,
      7741560053203367234147091 / 38685626227668133590597632,
      - (790153456996103545347653 / 2417851639229258349412352),
      - (790153456996103545347653 / 2417851639229258349412352),
      - (1206603241889079502204587 / 9671406556917033397649408),
      2010360215127745107418175 / 19342813113834066795298816,
      7741560053203367234147091 / 38685626227668133590597632,
      7741560053203367234147091 / 38685626227668133590597632]"

text \<open>
  Two forms for the evaluation of the loops on a given list: a list written from the
  list before it, and a value that is computed before it is used.
\<close>

definition upd2 :: "field \<Rightarrow> nat \<Rightarrow> (field \<Rightarrow> real) \<Rightarrow> field" where
  "upd2 x k f = x[k := f x]"

definition bindr :: "real \<Rightarrow> (real \<Rightarrow> 'a) \<Rightarrow> 'a" where
  "bindr val f = f val"

section \<open>Indices\<close>

lemma IX_mod: "i \<le> N + 1 \<Longrightarrow> IX N i j mod CSB N = i"
  unfolding IX_def CSB_def by (subst mod_mult_self1) simp

lemma IX_div: "i \<le> N + 1 \<Longrightarrow> IX N i j div CSB N = j"
  unfolding IX_def CSB_def by (subst div_mult_self1) simp_all

lemma IX_inj:
  assumes "i \<le> N + 1" "i' \<le> N + 1"
  shows "IX N i j = IX N i' j' \<longleftrightarrow> i = i' \<and> j = j'"
  using IX_mod [OF assms(1), of j] IX_mod [OF assms(2), of j']
    IX_div [OF assms(1), of j] IX_div [OF assms(2), of j']
  by auto

lemma IX_lt:
  assumes "i \<le> N + 1" "j \<le> N + 1"
  shows "IX N i j < SIZE N"
proof -
  have "i + j * (N + 2) < (N + 2) + j * (N + 2)" using assms by simp
  also have "\<dots> = (j + 1) * (N + 2)" by simp
  also have "\<dots> \<le> (N + 2) * (N + 2)" using assms by (intro mult_le_mono) simp_all
  finally show ?thesis by (simp add: IX_def CSB_def SIZE_def)
qed

section \<open>Boundary enforcement: the sequential loop\<close>

lemma length_set_bnd_edges [simp]: "length (set_bnd_edges N b i x) = length x"
  by (simp add: set_bnd_edges_def Let_def)

lemma length_fold_edges [simp]: "length (fold (set_bnd_edges N b) ks x) = length x"
  by (induction ks arbitrary: x) simp_all

lemma length_set_bnd_corners [simp]: "length (set_bnd_corners N x) = length x"
  by (simp add: set_bnd_corners_def Let_def)

lemma length_set_bnd [simp]: "length (set_bnd N b x) = length x"
  by (simp add: set_bnd_def)

lemma set_bnd_edges_nth:
  assumes "length x = SIZE N" "a \<le> N + 1" "c \<le> N + 1" "1 \<le> i" "i \<le> N"
  shows "set_bnd_edges N b i x ! IX N a c =
     (if a = 0 \<and> c = i then refl b 1 (x ! IX N 1 i)
      else if a = N + 1 \<and> c = i then refl b 1 (x ! IX N N i)
      else if c = 0 \<and> a = i then refl b 2 (x ! IX N i 1)
      else if c = N + 1 \<and> a = i then refl b 2 (x ! IX N i N)
      else x ! IX N a c)"
  using assms IX_lt [of a N c] IX_lt [of 0 N i] IX_lt [of "N + 1" N i] IX_lt [of i N 0]
    IX_lt [of i N "N + 1"]
  by (auto simp add: set_bnd_edges_def Let_def nth_list_update IX_inj refl_def)

lemma fold_edges_nth:
  assumes "length x = SIZE N" "a \<le> N + 1" "c \<le> N + 1" "n \<le> N"
  shows "fold (set_bnd_edges N b) [1..<Suc n] x ! IX N a c =
     (if a = 0 \<and> 1 \<le> c \<and> c \<le> n then refl b 1 (x ! IX N 1 c)
      else if a = N + 1 \<and> 1 \<le> c \<and> c \<le> n then refl b 1 (x ! IX N N c)
      else if c = 0 \<and> 1 \<le> a \<and> a \<le> n then refl b 2 (x ! IX N a 1)
      else if c = N + 1 \<and> 1 \<le> a \<and> a \<le> n then refl b 2 (x ! IX N a N)
      else x ! IX N a c)"
  using assms
proof (induction n arbitrary: a c)
  case 0
  then show ?case by simp
next
  case (Suc n)
  define y where "y = fold (set_bnd_edges N b) [1..<Suc n] x"
  have ly: "length y = SIZE N" using Suc.prems by (simp add: y_def)
  have n: "n \<le> N" "1 \<le> Suc n" "Suc n \<le> N" "1 \<le> N" using Suc.prems by simp_all
  have IH: "\<And>a c. a \<le> N + 1 \<Longrightarrow> c \<le> N + 1 \<Longrightarrow> y ! IX N a c =
     (if a = 0 \<and> 1 \<le> c \<and> c \<le> n then refl b 1 (x ! IX N 1 c)
      else if a = N + 1 \<and> 1 \<le> c \<and> c \<le> n then refl b 1 (x ! IX N N c)
      else if c = 0 \<and> 1 \<le> a \<and> a \<le> n then refl b 2 (x ! IX N a 1)
      else if c = N + 1 \<and> 1 \<le> a \<and> a \<le> n then refl b 2 (x ! IX N a N)
      else x ! IX N a c)"
    unfolding y_def using Suc.IH [OF Suc.prems(1) _ _ n(1)] by blast
  have r1: "y ! IX N 1 (Suc n) = x ! IX N 1 (Suc n)" using n by (subst IH) auto
  have r2: "y ! IX N N (Suc n) = x ! IX N N (Suc n)" using n by (subst IH) auto
  have r3: "y ! IX N (Suc n) 1 = x ! IX N (Suc n) 1" using n by (subst IH) auto
  have r4: "y ! IX N (Suc n) N = x ! IX N (Suc n) N" using n by (subst IH) auto
  have "fold (set_bnd_edges N b) [1..<Suc (Suc n)] x = set_bnd_edges N b (Suc n) y"
    by (simp add: y_def)
  then show ?case
    using Suc.prems(2,3) n
    by (simp add: set_bnd_edges_nth [OF ly Suc.prems(2,3) n(2,3)] r1 r2 r3 r4 IH)
qed

lemma set_bnd_corners_nth:
  assumes "length x = SIZE N" "a \<le> N + 1" "c \<le> N + 1" "1 \<le> N"
  shows "set_bnd_corners N x ! IX N a c =
     (if a = 0 \<and> c = 0 then 0.5 * (x ! IX N 1 0 + x ! IX N 0 1)
      else if a = 0 \<and> c = N + 1 then 0.5 * (x ! IX N 1 (N + 1) + x ! IX N 0 N)
      else if a = N + 1 \<and> c = 0 then 0.5 * (x ! IX N N 0 + x ! IX N (N + 1) 1)
      else if a = N + 1 \<and> c = N + 1 then 0.5 * (x ! IX N N (N + 1) + x ! IX N (N + 1) N)
      else x ! IX N a c)"
  using assms IX_lt [of a N c] IX_lt [of 0 N 0] IX_lt [of 0 N "N + 1"] IX_lt [of "N + 1" N 0]
    IX_lt [of "N + 1" N "N + 1"]
  by (auto simp add: set_bnd_corners_def Let_def nth_list_update IX_inj)

text \<open>Every cell after \<^verbatim>\<open>setBoundary\<close>, from the array before it.\<close>

lemma set_bnd_nth:
  assumes "length x = SIZE N" "a \<le> N + 1" "c \<le> N + 1" "1 \<le> N"
  shows "set_bnd N b x ! IX N a c =
     (if a = 0 \<and> c = 0 then 0.5 * (bnd_val N b x 1 0 + bnd_val N b x 0 1)
      else if a = 0 \<and> c = N + 1 then 0.5 * (bnd_val N b x 1 (N + 1) + bnd_val N b x 0 N)
      else if a = N + 1 \<and> c = 0 then 0.5 * (bnd_val N b x N 0 + bnd_val N b x (N + 1) 1)
      else if a = N + 1 \<and> c = N + 1
        then 0.5 * (bnd_val N b x N (N + 1) + bnd_val N b x (N + 1) N)
      else bnd_val N b x a c)"
proof -
  define y where "y = fold (set_bnd_edges N b) [1..<Suc N] x"
  have ly: "length y = SIZE N" using assms by (simp add: y_def)
  have y: "\<And>a c. a \<le> N + 1 \<Longrightarrow> c \<le> N + 1 \<Longrightarrow> y ! IX N a c = bnd_val N b x a c"
    unfolding y_def bnd_val_def using fold_edges_nth [OF assms(1), of _ _ N b] by simp
  have "set_bnd N b x = set_bnd_corners N y" by (simp add: set_bnd_def y_def)
  then show ?thesis
    using assms by (simp add: set_bnd_corners_nth [OF ly assms(2,3,4)] y)
qed

lemma set_bnd_interior:
  assumes "length x = SIZE N" "1 \<le> i" "i \<le> N" "1 \<le> j" "j \<le> N"
  shows "set_bnd N b x ! IX N i j = x ! IX N i j"
  using assms by (subst set_bnd_nth) (auto simp add: bnd_val_def)

lemma set_bnd_edge:
  assumes "length x = SIZE N" "1 \<le> k" "k \<le> N"
  shows "set_bnd N b x ! IX N 0 k = refl b 1 (x ! IX N 1 k)"
    and "set_bnd N b x ! IX N (N + 1) k = refl b 1 (x ! IX N N k)"
    and "set_bnd N b x ! IX N k 0 = refl b 2 (x ! IX N k 1)"
    and "set_bnd N b x ! IX N k (N + 1) = refl b 2 (x ! IX N k N)"
  using assms by (subst set_bnd_nth; auto simp add: bnd_val_def)+

section \<open>Boundary enforcement: the fragment program\<close>

lemma length_draw [simp]: "length (draw sz frag) = sz * sz"
  by (simp add: draw_def)

lemma draw_nth:
  assumes "a \<le> N + 1" "c \<le> N + 1"
  shows "draw (CSB N) frag ! IX N a c = frag (int a) (int c)"
proof -
  have "IX N a c < CSB N * CSB N" using IX_lt [OF assms] by (simp add: SIZE_def)
  then show ?thesis
    using IX_mod [OF assms(1), of c] IX_div [OF assms(1), of c] by (simp add: draw_def)
qed

lemma texelFetch_IX:
  assumes "a \<le> N + 1" "c \<le> N + 1"
  shows "texelFetch (CSB N) t (int a) (int c) = t ! IX N a c"
  using assms by (simp add: texelFetch_def IX_def CSB_def)

lemma setBoundary_frag_val:
  assumes "a \<le> N + 1" "c \<le> N + 1" "1 \<le> N"
  shows "setBoundary_frag (CSB N) x b (int a) (int c) =
     (if a = 0 \<and> c = 0 then 0.5 * (x ! IX N 1 0 + x ! IX N 0 1)
      else if a = 0 \<and> c = N + 1 then 0.5 * (x ! IX N 1 (N + 1) + x ! IX N 0 N)
      else if a = N + 1 \<and> c = 0 then 0.5 * (x ! IX N N 0 + x ! IX N (N + 1) 1)
      else if a = N + 1 \<and> c = N + 1 then 0.5 * (x ! IX N N (N + 1) + x ! IX N (N + 1) N)
      else bnd_val N b x a c)"
proof -
  have sz: "int (CSB N) - 2 = int N" by (simp add: CSB_def)
  have f: "\<And>p q. p \<le> N + 1 \<Longrightarrow> q \<le> N + 1 \<Longrightarrow>
      texelFetch (CSB N) x (int p) (int q) = x ! IX N p q"
    by (rule texelFetch_IX)
  have f1: "texelFetch (CSB N) x 1 (int c) = x ! IX N 1 c"
    using f [of 1 c] assms by simp
  have f2: "texelFetch (CSB N) x (int a) 1 = x ! IX N a 1"
    using f [of a 1] assms by simp
  have f3: "texelFetch (CSB N) x (int N) (int c) = x ! IX N N c"
    using f [of N c] assms by simp
  have f4: "texelFetch (CSB N) x (int a) (int N) = x ! IX N a N"
    using f [of a N] assms by simp
  have g: "texelFetch (CSB N) x 1 0 = x ! IX N 1 0" "texelFetch (CSB N) x 0 1 = x ! IX N 0 1"
    "texelFetch (CSB N) x 1 (int N + 1) = x ! IX N 1 (N + 1)"
    "texelFetch (CSB N) x 0 (int N) = x ! IX N 0 N"
    "texelFetch (CSB N) x (int N) 0 = x ! IX N N 0"
    "texelFetch (CSB N) x (int N + 1) 1 = x ! IX N (N + 1) 1"
    "texelFetch (CSB N) x (int N) (int N + 1) = x ! IX N N (N + 1)"
    "texelFetch (CSB N) x (int N + 1) (int N) = x ! IX N (N + 1) N"
    using f [of 1 0] f [of 0 1] f [of 1 "N + 1"] f [of 0 N] f [of N 0] f [of "N + 1" 1]
      f [of N "N + 1"] f [of "N + 1" N] assms(3)
    by (simp_all add: add.commute)
  show ?thesis
    using assms
    by (auto simp add: setBoundary_frag_def Let_def sz f f1 f2 f3 f4 g bnd_val_def refl_def)
qed

lemma GL_setBoundary_nth:
  assumes "size_gl g = CSB N" "a \<le> N + 1" "c \<le> N + 1"
  shows "textures (GL_setBoundary t b g) (Cur t) ! IX N a c =
     setBoundary_frag (CSB N) (textures g (Cur t)) b (int a) (int c)"
  using assms by (simp add: GL_setBoundary_def swap_into_def draw_nth)

lemma setBoundary_apply [simp]:
  "setBoundary N target b m target = set_bnd N b (m target)"
  "t \<noteq> target \<Longrightarrow> setBoundary N target b m t = m t"
  by (simp_all add: setBoundary_def)

lemma GL_setBoundary_val:
  assumes "size_gl g = CSB N" "a \<le> N + 1" "c \<le> N + 1" "1 \<le> N"
  shows "textures (GL_setBoundary t b g) (Cur t) ! IX N a c =
     (if a = 0 \<and> c = 0
        then 0.5 * (textures g (Cur t) ! IX N 1 0 + textures g (Cur t) ! IX N 0 1)
      else if a = 0 \<and> c = N + 1
        then 0.5 * (textures g (Cur t) ! IX N 1 (N + 1) + textures g (Cur t) ! IX N 0 N)
      else if a = N + 1 \<and> c = 0
        then 0.5 * (textures g (Cur t) ! IX N N 0 + textures g (Cur t) ! IX N (N + 1) 1)
      else if a = N + 1 \<and> c = N + 1
        then 0.5 * (textures g (Cur t) ! IX N N (N + 1) + textures g (Cur t) ! IX N (N + 1) N)
      else bnd_val N b (textures g (Cur t)) a c)"
  by (simp only: GL_setBoundary_nth [OF assms(1,2,3)] setBoundary_frag_val [OF assms(2,3,4)])

lemma GL_setBoundary_interior:
  assumes "size_gl g = CSB N" "1 \<le> i" "i \<le> N" "1 \<le> j" "j \<le> N"
  shows "textures (GL_setBoundary t b g) (Cur t) ! IX N i j = textures g (Cur t) ! IX N i j"
  using assms by (subst GL_setBoundary_val [of g N]) (auto simp add: bnd_val_def)

lemma GL_setBoundary_edge:
  assumes "size_gl g = CSB N" "1 \<le> k" "k \<le> N"
  shows "textures (GL_setBoundary t b g) (Cur t) ! IX N 0 k = refl b 1 (textures g (Cur t) ! IX N 1 k)"
    and "textures (GL_setBoundary t b g) (Cur t) ! IX N (N + 1) k =
         refl b 1 (textures g (Cur t) ! IX N N k)"
    and "textures (GL_setBoundary t b g) (Cur t) ! IX N k 0 = refl b 2 (textures g (Cur t) ! IX N k 1)"
    and "textures (GL_setBoundary t b g) (Cur t) ! IX N k (N + 1) =
         refl b 2 (textures g (Cur t) ! IX N k N)"
  using assms by (subst GL_setBoundary_val [of g N]; auto simp add: bnd_val_def)+

text \<open>
  C9. \<^verbatim>\<open>setBoundary\<close> leaves every interior cell as it was, for every kind: in the
  sequential variant the array keeps its interior cells, and in the parallel variant the
  texture after the pass has the interior texels of the texture before it.
\<close>

theorem setBoundary_interior_unchanged:
  assumes "1 \<le> i" "i \<le> N" "1 \<le> j" "j \<le> N"
    and "length (m target) = SIZE N"
    and "size_gl g = CSB N"
  shows "setBoundary N target b m target ! IX N i j = m target ! IX N i j \<and>
         textures (GL_setBoundary target b g) (Cur target) ! IX N i j =
           textures g (Cur target) ! IX N i j"
  using assms by (simp add: set_bnd_interior GL_setBoundary_interior)

theorem setBoundary_interior_unchanged_witness:
  "(1::nat) \<le> 1 \<and> length (ex_mem X) = SIZE 1 \<and> size_gl ex_gpu = CSB 1 \<and>
   setBoundary 1 X 2 ex_mem X ! IX 1 1 1 = ex_mem X ! IX 1 1 1 \<and>
   textures (GL_setBoundary X 2 ex_gpu) (Cur X) ! IX 1 1 1 = textures ex_gpu (Cur X) ! IX 1 1 1"
  using setBoundary_interior_unchanged [of 1 1 1 ex_mem X ex_gpu 2]
  by (simp add: ex_mem_def ex_cells_def ex_gpu_def SIZE_def CSB_def)

text \<open>
  C6. With kind 1 the cells \<open>(0, k)\<close> and \<open>(N + 1, k)\<close> are the negated neighbours
  \<open>(1, k)\<close> and \<open>(N, k)\<close>, and the cells \<open>(k, 0)\<close> and \<open>(k, N + 1)\<close> are copies of
  \<open>(k, 1)\<close> and \<open>(k, N)\<close>; with kind 2 the two pairs of edges change roles. This holds
  after \<^verbatim>\<open>setBoundary\<close> of the sequential variant (\<open>y1\<close>, \<open>y2\<close>) and after the pass of
  the parallel variant (\<open>z1\<close>, \<open>z2\<close>).
\<close>

theorem setBoundary_reflective:
  assumes "1 \<le> k" "k \<le> N"
    and "length (m t) = SIZE N"
    and "size_gl g = CSB N"
  shows "(let y1 = setBoundary N t 1 m t; y2 = setBoundary N t 2 m t;
              z1 = textures (GL_setBoundary t 1 g) (Cur t);
              z2 = textures (GL_setBoundary t 2 g) (Cur t)
          in y1 ! IX N 0 k = - y1 ! IX N 1 k \<and> y1 ! IX N (N + 1) k = - y1 ! IX N N k \<and>
             y1 ! IX N k 0 = y1 ! IX N k 1 \<and> y1 ! IX N k (N + 1) = y1 ! IX N k N \<and>
             y2 ! IX N k 0 = - y2 ! IX N k 1 \<and> y2 ! IX N k (N + 1) = - y2 ! IX N k N \<and>
             y2 ! IX N 0 k = y2 ! IX N 1 k \<and> y2 ! IX N (N + 1) k = y2 ! IX N N k \<and>
             z1 ! IX N 0 k = - z1 ! IX N 1 k \<and> z1 ! IX N (N + 1) k = - z1 ! IX N N k \<and>
             z1 ! IX N k 0 = z1 ! IX N k 1 \<and> z1 ! IX N k (N + 1) = z1 ! IX N k N \<and>
             z2 ! IX N k 0 = - z2 ! IX N k 1 \<and> z2 ! IX N k (N + 1) = - z2 ! IX N k N \<and>
             z2 ! IX N 0 k = z2 ! IX N 1 k \<and> z2 ! IX N (N + 1) k = z2 ! IX N N k)"
proof -
  have N: "1 \<le> N" using assms by simp
  note s = set_bnd_edge [OF assms(3,1,2)] set_bnd_interior [OF assms(3)]
  note p = GL_setBoundary_edge [OF assms(4,1,2)] GL_setBoundary_interior [OF assms(4)]
  show ?thesis
    using assms N by (simp add: Let_def s p refl_def del: One_nat_def)
qed

theorem setBoundary_reflective_witness:
  "(1::nat) \<le> 1 \<and> length (ex_mem U) = SIZE 1 \<and> size_gl ex_gpu = CSB 1 \<and>
   (let y1 = setBoundary 1 U 1 ex_mem U; y2 = setBoundary 1 U 2 ex_mem U;
        z1 = textures (GL_setBoundary U 1 ex_gpu) (Cur U);
        z2 = textures (GL_setBoundary U 2 ex_gpu) (Cur U)
    in y1 ! IX 1 0 1 = - y1 ! IX 1 1 1 \<and> y1 ! IX 1 (1 + 1) 1 = - y1 ! IX 1 1 1 \<and>
       y1 ! IX 1 1 0 = y1 ! IX 1 1 1 \<and> y1 ! IX 1 1 (1 + 1) = y1 ! IX 1 1 1 \<and>
       y2 ! IX 1 1 0 = - y2 ! IX 1 1 1 \<and> y2 ! IX 1 1 (1 + 1) = - y2 ! IX 1 1 1 \<and>
       y2 ! IX 1 0 1 = y2 ! IX 1 1 1 \<and> y2 ! IX 1 (1 + 1) 1 = y2 ! IX 1 1 1 \<and>
       z1 ! IX 1 0 1 = - z1 ! IX 1 1 1 \<and> z1 ! IX 1 (1 + 1) 1 = - z1 ! IX 1 1 1 \<and>
       z1 ! IX 1 1 0 = z1 ! IX 1 1 1 \<and> z1 ! IX 1 1 (1 + 1) = z1 ! IX 1 1 1 \<and>
       z2 ! IX 1 1 0 = - z2 ! IX 1 1 1 \<and> z2 ! IX 1 1 (1 + 1) = - z2 ! IX 1 1 1 \<and>
       z2 ! IX 1 0 1 = z2 ! IX 1 1 1 \<and> z2 ! IX 1 (1 + 1) 1 = z2 ! IX 1 1 1)"
proof -
  have h: "(1::nat) \<le> 1" "length (ex_mem U) = SIZE 1" "size_gl ex_gpu = CSB 1"
    by (simp_all add: ex_mem_def ex_cells_def ex_gpu_def SIZE_def CSB_def)
  show ?thesis
    using h setBoundary_reflective [of 1 1 ex_mem U ex_gpu, OF h(1) h(1) h(2) h(3)] by blast
qed

text \<open>
  The sequential \<^verbatim>\<open>setBoundary\<close> with kind 0: every edge cell is a copy of its
  interior neighbour and every corner is the mean of its two neighbours on the ring.
\<close>

lemma set_bnd_continuity:
  assumes "1 \<le> k" "k \<le> N" "length x = SIZE N"
  shows "(let y = set_bnd N 0 x
          in y ! IX N 0 k = y ! IX N 1 k \<and> y ! IX N (N + 1) k = y ! IX N N k \<and>
             y ! IX N k 0 = y ! IX N k 1 \<and> y ! IX N k (N + 1) = y ! IX N k N \<and>
             y ! IX N 0 0 = 0.5 * (y ! IX N 1 0 + y ! IX N 0 1) \<and>
             y ! IX N 0 (N + 1) = 0.5 * (y ! IX N 1 (N + 1) + y ! IX N 0 N) \<and>
             y ! IX N (N + 1) 0 = 0.5 * (y ! IX N N 0 + y ! IX N (N + 1) 1) \<and>
             y ! IX N (N + 1) (N + 1) = 0.5 * (y ! IX N N (N + 1) + y ! IX N (N + 1) N))"
proof -
  have N: "1 \<le> N" using assms by simp
  have e: "\<And>a c. a \<le> N + 1 \<Longrightarrow> c \<le> N + 1 \<Longrightarrow> set_bnd N 0 x ! IX N a c =
     (if a = 0 \<and> c = 0 then 0.5 * (bnd_val N 0 x 1 0 + bnd_val N 0 x 0 1)
      else if a = 0 \<and> c = N + 1 then 0.5 * (bnd_val N 0 x 1 (N + 1) + bnd_val N 0 x 0 N)
      else if a = N + 1 \<and> c = 0 then 0.5 * (bnd_val N 0 x N 0 + bnd_val N 0 x (N + 1) 1)
      else if a = N + 1 \<and> c = N + 1
        then 0.5 * (bnd_val N 0 x N (N + 1) + bnd_val N 0 x (N + 1) N)
      else bnd_val N 0 x a c)"
    using set_bnd_nth [OF assms(3) _ _ N] by blast
  show ?thesis
    using assms N by (simp add: Let_def e bnd_val_def refl_def del: One_nat_def)
qed

text \<open>
  C5. In the parallel variant the corner texels are computed from the edge texels of the
  texture before the pass. On the density texture after the first fan source, at
  resolution 2 and kind 0, the pass sets the edge texels \<open>(1, 0)\<close> and \<open>(0, 1)\<close> to 60 and
  the corner \<open>(0, 0)\<close> to 0, which is not their mean.
\<close>

theorem GL_setBoundary_corner_not_mean:
  "(let y = textures (GL_setBoundary X 0 fan_gpu) (Cur X)
    in y ! IX 2 1 0 = 60 \<and> y ! IX 2 0 1 = 60 \<and> y ! IX 2 0 0 = 0 \<and>
       y ! IX 2 0 0 \<noteq> 0.5 * (y ! IX 2 1 0 + y ! IX 2 0 1))"
proof -
  have sz: "size_gl fan_gpu = CSB 2" by (simp add: fan_gpu_def CSB_def)
  have t: "textures fan_gpu (Cur X) = fan_cells" by (simp add: fan_gpu_def)
  have "textures (GL_setBoundary X 0 fan_gpu) (Cur X) ! IX 2 1 0 = 60"
    by (subst GL_setBoundary_val [OF sz]) (simp_all add: t bnd_val_def refl_def fan_cells_def IX_def CSB_def)
  moreover have "textures (GL_setBoundary X 0 fan_gpu) (Cur X) ! IX 2 0 1 = 60"
    by (subst GL_setBoundary_val [OF sz]) (simp_all add: t bnd_val_def refl_def fan_cells_def IX_def CSB_def)
  moreover have "textures (GL_setBoundary X 0 fan_gpu) (Cur X) ! IX 2 0 0 = 0"
    by (subst GL_setBoundary_val [OF sz]) (simp_all add: t bnd_val_def refl_def fan_cells_def IX_def CSB_def)
  ultimately show ?thesis by (simp add: Let_def)
qed

section \<open>Decay\<close>

lemma length_fade_at [simp]: "length (fade_at d i x) = length x"
  by (simp add: fade_at_def Let_def)

lemma fade_at_nth:
  assumes "i < length x"
  shows "fade_at d i x ! k = (if k = i then min 255 (max 0 (x ! i - d)) else x ! k)"
  using assms by (auto simp add: fade_at_def Let_def nth_list_update)

lemma fold_fade_at:
  assumes "n \<le> length x"
  shows "length (fold (fade_at d) [0..<n] x) = length x \<and>
         (\<forall>k < length x. fold (fade_at d) [0..<n] x ! k =
            (if k < n then min 255 (max 0 (x ! k - d)) else x ! k))"
  using assms
proof (induction n)
  case 0
  then show ?case by simp
next
  case (Suc n)
  then have n: "n < length x" and IH: "length (fold (fade_at d) [0..<n] x) = length x"
    "\<And>k. k < length x \<Longrightarrow> fold (fade_at d) [0..<n] x ! k =
            (if k < n then min 255 (max 0 (x ! k - d)) else x ! k)"
    by simp_all
  show ?case
    using n IH by (simp add: fade_at_nth less_Suc_eq)
qed

lemma fadeStep_nth:
  assumes "k < length (arrays s X)"
  shows "arrays (fadeStep s) X ! k = min 255 (max 0 (arrays s X ! k - densityDecay s))"
  using assms fold_fade_at [of "length (arrays s X)" "arrays s X" "densityDecay s"]
  by (simp add: fadeStep_def)

lemma fadeStep_keeps [simp]:
  "length (arrays (fadeStep s) X) = length (arrays s X)"
  "densityDecay (fadeStep s) = densityDecay s"
  using fold_fade_at [of "length (arrays s X)" "arrays s X" "densityDecay s"]
  by (simp_all add: fadeStep_def)

lemma fadeStep_funpow_keeps [simp]:
  "length (arrays ((fadeStep ^^ n) s) X) = length (arrays s X)"
  "densityDecay ((fadeStep ^^ n) s) = densityDecay s"
  by (induction n) simp_all

lemma fadeStep_funpow_range:
  assumes "k < length (arrays s X)" "0 < n"
  shows "0 \<le> arrays ((fadeStep ^^ n) s) X ! k \<and> arrays ((fadeStep ^^ n) s) X ! k \<le> 255"
proof -
  obtain n' where n: "n = Suc n'" using assms(2) by (cases n) auto
  have "k < length (arrays ((fadeStep ^^ n') s) X)" using assms(1) by simp
  from fadeStep_nth [OF this] show ?thesis by (simp add: n)
qed

lemma fadeStep_funpow_zero:
  assumes "k < length (arrays s X)" "0 \<le> densityDecay s" "arrays s X ! k = 0"
  shows "arrays ((fadeStep ^^ n) s) X ! k = 0"
proof (induction n)
  case 0
  then show ?case using assms by simp
next
  case (Suc n)
  have "k < length (arrays ((fadeStep ^^ n) s) X)" using assms(1) by simp
  from fadeStep_nth [OF this] Suc assms(2) show ?case by simp
qed

lemma swap_into_simps [simp]:
  "size_gl (swap_into t out g) = size_gl g"
  "textures (swap_into t out g) (Cur t) = out"
  by (simp_all add: swap_into_def)

lemma texel_index:
  assumes "k < sz * sz"
  shows "texelFetch sz t (int (k mod sz)) (int (k div sz)) = t ! k"
proof -
  have "0 < sz" using assms by (cases sz) auto
  moreover have "k div sz < sz" using assms by (simp add: less_mult_imp_div_less)
  ultimately show ?thesis by (simp add: texelFetch_def)
qed

lemma GL_fade_nth:
  assumes "k < size_gl g * size_gl g"
  shows "textures (GL_fade d g) (Cur X) ! k = min 255 (max 0 (textures g (Cur X) ! k - d))"
  using assms
  by (simp add: GL_fade_def draw_def fade_frag_def clamp_glsl_def Let_def texel_index min.commute)

lemma GL_fade_keeps [simp]: "size_gl (GL_fade d g) = size_gl g"
  by (simp add: GL_fade_def)

lemma GL_fade_funpow_keeps [simp]: "size_gl ((GL_fade d ^^ n) g) = size_gl g"
  by (induction n) simp_all

lemma GL_fade_funpow_range:
  assumes "k < size_gl g * size_gl g" "0 < n"
  shows "0 \<le> textures ((GL_fade d ^^ n) g) (Cur X) ! k \<and>
         textures ((GL_fade d ^^ n) g) (Cur X) ! k \<le> 255"
proof -
  obtain n' where n: "n = Suc n'" using assms(2) by (cases n) auto
  have "k < size_gl ((GL_fade d ^^ n') g) * size_gl ((GL_fade d ^^ n') g)"
    using assms(1) by simp
  from GL_fade_nth [OF this] show ?thesis by (simp add: n)
qed

lemma GL_fade_funpow_zero:
  assumes "k < size_gl g * size_gl g" "0 \<le> d" "textures g (Cur X) ! k = 0"
  shows "textures ((GL_fade d ^^ n) g) (Cur X) ! k = 0"
proof (induction n)
  case 0
  then show ?case using assms by simp
next
  case (Suc n)
  have "k < size_gl ((GL_fade d ^^ n) g) * size_gl ((GL_fade d ^^ n) g)"
    using assms(1) by simp
  from GL_fade_nth [OF this] Suc assms(2) show ?case by simp
qed

text \<open>
  C7. Every cell of the density field, at any index \<open>k\<close> of the array, becomes the old
  value minus the decay constant, clamped to \<open>[0, 255]\<close>. After one or more decay steps
  every cell is in \<open>[0, 255]\<close>, and with a decay constant that is not negative a cell that
  is 0 stays 0. This holds for \<^verbatim>\<open>fadeStep\<close> of the sequential variant and for the
  \<^verbatim>\<open>fade\<close> pass of the parallel variant.
\<close>

theorem decay_clamps:
  assumes "0 \<le> densityDecay s" "k < length (arrays s X)"
    and "0 \<le> d" "k < size_gl g * size_gl g"
  shows "arrays (fadeStep s) X ! k = min 255 (max 0 (arrays s X ! k - densityDecay s)) \<and>
         (0 < n \<longrightarrow> 0 \<le> arrays ((fadeStep ^^ n) s) X ! k \<and>
                     arrays ((fadeStep ^^ n) s) X ! k \<le> 255) \<and>
         (arrays s X ! k = 0 \<longrightarrow> arrays ((fadeStep ^^ n) s) X ! k = 0) \<and>
         textures (GL_fade d g) (Cur X) ! k = min 255 (max 0 (textures g (Cur X) ! k - d)) \<and>
         (0 < n \<longrightarrow> 0 \<le> textures ((GL_fade d ^^ n) g) (Cur X) ! k \<and>
                     textures ((GL_fade d ^^ n) g) (Cur X) ! k \<le> 255) \<and>
         (textures g (Cur X) ! k = 0 \<longrightarrow> textures ((GL_fade d ^^ n) g) (Cur X) ! k = 0)"
proof -
  note a = fadeStep_nth [OF assms(2)]
  note b = fadeStep_funpow_range [OF assms(2), of n]
  note c = fadeStep_funpow_zero [OF assms(2,1), of n]
  note e = GL_fade_nth [OF assms(4), of d]
  note f = GL_fade_funpow_range [OF assms(4), of n d]
  note h = GL_fade_funpow_zero [OF assms(4,3), of n]
  show ?thesis
    using a b c e f h by simp
qed

theorem decay_clamps_witness:
  "0 \<le> densityDecay fan_state \<and> (0::nat) < length (arrays fan_state X) \<and>
   (0::real) \<le> 1 / 10 \<and> (0::nat) < size_gl fan_gpu * size_gl fan_gpu \<and>
   (0::nat) < 3 \<and> arrays fan_state X ! 0 = 0 \<and> textures fan_gpu (Cur X) ! 0 = 0 \<and>
   arrays (fadeStep fan_state) X ! 0 =
     min 255 (max 0 (arrays fan_state X ! 0 - densityDecay fan_state)) \<and>
   0 \<le> arrays ((fadeStep ^^ 3) fan_state) X ! 0 \<and>
   arrays ((fadeStep ^^ 3) fan_state) X ! 0 \<le> 255 \<and>
   arrays ((fadeStep ^^ 3) fan_state) X ! 0 = 0 \<and>
   textures (GL_fade (1 / 10) fan_gpu) (Cur X) ! 0 =
     min 255 (max 0 (textures fan_gpu (Cur X) ! 0 - 1 / 10)) \<and>
   0 \<le> textures ((GL_fade (1 / 10) ^^ 3) fan_gpu) (Cur X) ! 0 \<and>
   textures ((GL_fade (1 / 10) ^^ 3) fan_gpu) (Cur X) ! 0 \<le> 255 \<and>
   textures ((GL_fade (1 / 10) ^^ 3) fan_gpu) (Cur X) ! 0 = 0"
proof -
  have h: "0 \<le> densityDecay fan_state" "(0::nat) < length (arrays fan_state X)"
    "(0::real) \<le> 1 / 10" "(0::nat) < size_gl fan_gpu * size_gl fan_gpu"
    by (simp_all add: fan_state_def fan_cells_def fan_gpu_def)
  have z: "(0::nat) < 3" "arrays fan_state X ! 0 = 0" "textures fan_gpu (Cur X) ! 0 = 0"
    by (simp_all add: fan_state_def fan_cells_def fan_gpu_def)
  show ?thesis
    using h z decay_clamps [OF h, of 3] by blast
qed

section \<open>Sample positions of the advection\<close>

lemma clamp_pos_range: "0.5 \<le> clamp_pos N x \<and> clamp_pos N x \<le> real N + 0.5"
  by (simp add: clamp_pos_def Let_def)

lemma clamp_pos_eq: "clamp_pos N x = min (real N + 0.5) (max 0.5 x)"
  by (simp add: clamp_pos_def Let_def min_def max_def)

lemma toInt32_floor:
  assumes "0 \<le> x" "x < 2 ^ 31"
  shows "toInt32 x = \<lfloor>x\<rfloor>"
proof -
  have lo: "0 \<le> \<lfloor>x\<rfloor>" using assms(1) by simp
  have hi: "\<lfloor>x\<rfloor> < 2 ^ 31" using assms(2) by (simp add: floor_less_iff)
  have "\<lfloor>x\<rfloor> mod 2 ^ 32 = \<lfloor>x\<rfloor>" using lo hi by simp
  then show ?thesis using assms(1) hi by (simp add: toInt32_def Let_def)
qed

lemma toInt32_clamp_pos:
  assumes "N < 2 ^ 31 - 1"
  shows "toInt32 (clamp_pos N x) = \<lfloor>clamp_pos N x\<rfloor>"
    and "0 \<le> toInt32 (clamp_pos N x)" and "toInt32 (clamp_pos N x) \<le> int N"
proof -
  have r: "0.5 \<le> clamp_pos N x" "clamp_pos N x \<le> real N + 0.5"
    using clamp_pos_range [of N x] by simp_all
  have "real N + 1 \<le> 2 ^ 31 - 1"
  proof -
    have "N + 1 \<le> 2 ^ 31 - 1" using assms by simp
    then have "real (N + 1) \<le> real (2 ^ 31 - 1)" by (rule of_nat_mono)
    then show ?thesis by simp
  qed
  then have "clamp_pos N x < 2 ^ 31" using r by simp
  then show e: "toInt32 (clamp_pos N x) = \<lfloor>clamp_pos N x\<rfloor>"
    using r by (intro toInt32_floor) simp_all
  show "0 \<le> toInt32 (clamp_pos N x)" using r by (simp add: e)
  have "clamp_pos N x < real_of_int (int N + 1)" using r by simp
  then have "\<lfloor>clamp_pos N x\<rfloor> < int N + 1" by (simp only: floor_less_iff)
  then show "toInt32 (clamp_pos N x) \<le> int N" by (simp add: e)
qed

lemma IXi_range:
  assumes "0 \<le> i" "i \<le> int N + 1" "0 \<le> j" "j \<le> int N + 1"
  shows "0 \<le> IXi N i j \<and> IXi N i j < int (SIZE N)"
proof -
  have "nat i \<le> N + 1" "nat j \<le> N + 1" using assms by simp_all
  from IX_lt [OF this] have "int (IX N (nat i) (nat j)) < int (SIZE N)" by simp
  moreover have "int (IX N (nat i) (nat j)) = IXi N i j"
    using assms by (simp add: IX_def IXi_def)
  ultimately show ?thesis using assms by (simp add: IXi_def)
qed

lemma IXi_nat:
  assumes "0 \<le> i" "0 \<le> j"
  shows "nat (IXi N i j) = IX N (nat i) (nat j)"
  using assms by (simp add: IX_def IXi_def nat_add_distrib nat_mult_distrib)

lemma clamp_glsl_range:
  assumes "1 \<le> N"
  shows "0.5 \<le> clamp_glsl x 0.5 (real N) \<and> clamp_glsl x 0.5 (real N) \<le> real N"
  using assms by (simp add: clamp_glsl_def min_def max_def)

lemma int_glsl_clamp:
  shows "0 \<le> int_glsl (clamp_glsl x 0.5 (real N))"
    and "int_glsl (clamp_glsl x 0.5 (real N)) \<le> int N"
proof -
  have r: "0 \<le> clamp_glsl x 0.5 (real N)" "clamp_glsl x 0.5 (real N) \<le> real N"
    by (simp_all add: clamp_glsl_def min_def max_def)
  then show "0 \<le> int_glsl (clamp_glsl x 0.5 (real N))" by (simp add: int_glsl_def)
  have "\<lfloor>clamp_glsl x 0.5 (real N)\<rfloor> \<le> \<lfloor>real N\<rfloor>" using r(2) by (rule floor_mono)
  then show "int_glsl (clamp_glsl x 0.5 (real N)) \<le> int N" using r by (simp add: int_glsl_def)
qed

text \<open>
  C10. Whatever the velocity arrays hold, the four sample indices that \<^verbatim>\<open>advect\<close>
  computes for a cell are inside the grid: \<open>i0, j0\<close> in \<open>[0, N]\<close>, \<open>i1, j1\<close> in
  \<open>[1, N + 1]\<close>, and the four flattened indices are in \<open>[0, SIZE)\<close>. For the sequential
  variant the resolution is below \<open>2\<^sup>3\<^sup>1 - 1\<close>, as it is for every array that can be
  allocated; the cast \<^verbatim>\<open>| 0\<close> would wrap beyond. In the parallel variant the texel
  coordinates of the four fetches are in \<open>[0, size)\<close>.
\<close>

theorem advect_indices_in_bounds:
  assumes "N < 2 ^ 31 - 1"
  shows "(let x = clamp_pos N (real i - dt0 * m u ! IX N i j);
              y = clamp_pos N (real j - dt0 * m v ! IX N i j);
              i0 = toInt32 x; i1 = i0 + 1; j0 = toInt32 y; j1 = j0 + 1
          in 0 \<le> i0 \<and> i0 \<le> int N \<and> 1 \<le> i1 \<and> i1 \<le> int N + 1 \<and>
             0 \<le> j0 \<and> j0 \<le> int N \<and> 1 \<le> j1 \<and> j1 \<le> int N + 1 \<and>
             0 \<le> IXi N i0 j0 \<and> IXi N i0 j0 < int (SIZE N) \<and>
             0 \<le> IXi N i0 j1 \<and> IXi N i0 j1 < int (SIZE N) \<and>
             0 \<le> IXi N i1 j0 \<and> IXi N i1 j0 < int (SIZE N) \<and>
             0 \<le> IXi N i1 j1 \<and> IXi N i1 j1 < int (SIZE N)) \<and>
         (let sx = int (CSB N) - 2; sy = int (CSB N) - 2;
              x = clamp_glsl (of_int px - dt0 * texelFetch (CSB N) tu px py) 0.5 (of_int sx);
              y = clamp_glsl (of_int py - dt0 * texelFetch (CSB N) tv px py) 0.5 (of_int sy);
              i0 = int_glsl x; i1 = i0 + 1; j0 = int_glsl y; j1 = j0 + 1
          in 0 \<le> i0 \<and> i0 \<le> int N \<and> 1 \<le> i1 \<and> i1 \<le> int N + 1 \<and>
             0 \<le> j0 \<and> j0 \<le> int N \<and> 1 \<le> j1 \<and> j1 \<le> int N + 1 \<and>
             i1 < int (CSB N) \<and> j1 < int (CSB N))"
proof -
  define x where "x = clamp_pos N (real i - dt0 * m u ! IX N i j)"
  define y where "y = clamp_pos N (real j - dt0 * m v ! IX N i j)"
  have i0: "0 \<le> toInt32 x" "toInt32 x \<le> int N"
    and j0: "0 \<le> toInt32 y" "toInt32 y \<le> int N"
    unfolding x_def y_def using toInt32_clamp_pos [OF assms] by simp_all
  have a: "0 \<le> IXi N (toInt32 x) (toInt32 y) \<and> IXi N (toInt32 x) (toInt32 y) < int (SIZE N)"
    "0 \<le> IXi N (toInt32 x) (toInt32 y + 1) \<and>
     IXi N (toInt32 x) (toInt32 y + 1) < int (SIZE N)"
    "0 \<le> IXi N (toInt32 x + 1) (toInt32 y) \<and>
     IXi N (toInt32 x + 1) (toInt32 y) < int (SIZE N)"
    "0 \<le> IXi N (toInt32 x + 1) (toInt32 y + 1) \<and>
     IXi N (toInt32 x + 1) (toInt32 y + 1) < int (SIZE N)"
    using i0 j0 by (intro IXi_range; simp)+
  define gx where
    "gx = clamp_glsl (of_int px - dt0 * texelFetch (CSB N) tu px py) 0.5 (real N)"
  define gy where
    "gy = clamp_glsl (of_int py - dt0 * texelFetch (CSB N) tv px py) 0.5 (real N)"
  have g: "0 \<le> int_glsl gx" "int_glsl gx \<le> int N" "0 \<le> int_glsl gy" "int_glsl gy \<le> int N"
    unfolding gx_def gy_def using int_glsl_clamp by simp_all
  have sz: "int (CSB N) - 2 = int N" by (simp add: CSB_def)
  have seq: "0 \<le> toInt32 x \<and> toInt32 x \<le> int N \<and> 1 \<le> toInt32 x + 1 \<and>
      toInt32 x + 1 \<le> int N + 1 \<and> 0 \<le> toInt32 y \<and> toInt32 y \<le> int N \<and>
      1 \<le> toInt32 y + 1 \<and> toInt32 y + 1 \<le> int N + 1"
    using i0 j0 by simp
  have par: "0 \<le> int_glsl gx \<and> int_glsl gx \<le> int N \<and> 1 \<le> int_glsl gx + 1 \<and>
      int_glsl gx + 1 \<le> int N + 1 \<and> 0 \<le> int_glsl gy \<and> int_glsl gy \<le> int N \<and>
      1 \<le> int_glsl gy + 1 \<and> int_glsl gy + 1 \<le> int N + 1 \<and>
      int_glsl gx + 1 < int (CSB N) \<and> int_glsl gy + 1 < int (CSB N)"
    using g by (simp add: CSB_def)
  show ?thesis
    unfolding Let_def sz of_int_of_nat_eq
    using seq a par unfolding x_def y_def gx_def gy_def by blast
qed

theorem advect_indices_in_bounds_witness:
  "(4::nat) < 2 ^ 31 - 1 \<and>
   (let x = clamp_pos 4 (real 4 - (1 / 15) * ex_mem U ! IX 4 4 2);
        y = clamp_pos 4 (real 2 - (1 / 15) * ex_mem V ! IX 4 4 2);
        i0 = toInt32 x; i1 = i0 + 1; j0 = toInt32 y; j1 = j0 + 1
    in 0 \<le> i0 \<and> i0 \<le> int 4 \<and> 1 \<le> i1 \<and> i1 \<le> int 4 + 1 \<and>
       0 \<le> j0 \<and> j0 \<le> int 4 \<and> 1 \<le> j1 \<and> j1 \<le> int 4 + 1 \<and>
       0 \<le> IXi 4 i0 j0 \<and> IXi 4 i0 j0 < int (SIZE 4) \<and>
       0 \<le> IXi 4 i0 j1 \<and> IXi 4 i0 j1 < int (SIZE 4) \<and>
       0 \<le> IXi 4 i1 j0 \<and> IXi 4 i1 j0 < int (SIZE 4) \<and>
       0 \<le> IXi 4 i1 j1 \<and> IXi 4 i1 j1 < int (SIZE 4)) \<and>
   (let sx = int (CSB 4) - 2; sy = int (CSB 4) - 2;
        x = clamp_glsl (of_int 4 - (1 / 15) * texelFetch (CSB 4) ex_cells 4 2) 0.5 (of_int sx);
        y = clamp_glsl (of_int 2 - (1 / 15) * texelFetch (CSB 4) ex_cells 4 2) 0.5 (of_int sy);
        i0 = int_glsl x; i1 = i0 + 1; j0 = int_glsl y; j1 = j0 + 1
    in 0 \<le> i0 \<and> i0 \<le> int 4 \<and> 1 \<le> i1 \<and> i1 \<le> int 4 + 1 \<and>
       0 \<le> j0 \<and> j0 \<le> int 4 \<and> 1 \<le> j1 \<and> j1 \<le> int 4 + 1 \<and>
       i1 < int (CSB 4) \<and> j1 < int (CSB 4))"
proof -
  have h: "(4::nat) < 2 ^ 31 - 1" by simp
  show ?thesis
    using h advect_indices_in_bounds [OF h, of 4 "1 / 15" ex_mem U 2 V 4 ex_cells 2 ex_cells]
    by blast
qed

section \<open>The order of one tick\<close>

text \<open>
  C4. One tick of the sequential variant is, in this order: diffuse \<open>u\<close> into \<open>u0\<close> with
  kind 1 and \<open>v\<close> into \<open>v0\<close> with kind 2, project \<open>(u0, v0)\<close> with \<open>(u, v)\<close> as scratch,
  advect \<open>u0\<close> into \<open>u\<close> and \<open>v0\<close> into \<open>v\<close> along \<open>(u0, v0)\<close>, project \<open>(u, v)\<close> with
  \<open>(u0, v0)\<close> as scratch, diffuse \<open>x\<close> into \<open>x0\<close>, advect \<open>x0\<close> into \<open>x\<close> along \<open>(u, v)\<close>,
  decay. The tick of the parallel variant makes the same calls in the same order after
  the source passes; there a call of \<^verbatim>\<open>diffuse\<close> may throw, which ends the tick.
  \<^verbatim>\<open>project\<close> occurs twice in the velocity step, before and after the two calls of
  \<^verbatim>\<open>advect\<close>.
\<close>

theorem update_order:
  "update N dt s =
     fadeStep (s\<lparr>arrays :=
       (advect N dt X X0 U V 0 \<circ>
        diffuse N dt X0 X (diffuse_rate s) 0 \<circ>
        project N U V U0 V0 \<circ>
        advect N dt V V0 U0 V0 2 \<circ>
        advect N dt U U0 U0 V0 1 \<circ>
        project N U0 V0 U V \<circ>
        diffuse N dt V0 V (viscocity s) 2 \<circ>
        diffuse N dt U0 U (viscocity s) 1) (arrays s)\<rparr>) \<and>
   update_gl N dt decay forces g =
     and_then (diffuse_gl U0 U 1 (forces g)) (\<lambda>g1.
     and_then (diffuse_gl V0 V 2 g1) (\<lambda>g2.
     and_then (diffuse_gl X0 X 0
                (project_gl N U V U0 V0
                  (advect_gl N dt V V0 U0 V0 2
                    (advect_gl N dt U U0 U0 V0 1
                      (project_gl N U0 V0 U V g2))))) (\<lambda>g3.
       Inr (GL_fade decay (advect_gl N dt X X0 U V 0 g3)))))"
proof
  show "update N dt s =
     fadeStep (s\<lparr>arrays :=
       (advect N dt X X0 U V 0 \<circ>
        diffuse N dt X0 X (diffuse_rate s) 0 \<circ>
        project N U V U0 V0 \<circ>
        advect N dt V V0 U0 V0 2 \<circ>
        advect N dt U U0 U0 V0 1 \<circ>
        project N U0 V0 U V \<circ>
        diffuse N dt V0 V (viscocity s) 2 \<circ>
        diffuse N dt U0 U (viscocity s) 1) (arrays s)\<rparr>)"
    by (simp add: update_def densityStep_def velocityStep_def Let_def)
next
  show "update_gl N dt decay forces g =
     and_then (diffuse_gl U0 U 1 (forces g)) (\<lambda>g1.
     and_then (diffuse_gl V0 V 2 g1) (\<lambda>g2.
     and_then (diffuse_gl X0 X 0
                (project_gl N U V U0 V0
                  (advect_gl N dt V V0 U0 V0 2
                    (advect_gl N dt U U0 U0 V0 1
                      (project_gl N U0 V0 U V g2))))) (\<lambda>g3.
       Inr (GL_fade decay (advect_gl N dt X X0 U V 0 g3)))))"
    by (simp add: update_gl_def densityStep_gl_def velocityStep_gl_def and_then_def
        split: sum.splits)
qed

section \<open>Calls with one field as source and target\<close>

text \<open>
  C8, as the claim states it, fails: the sequential \<^verbatim>\<open>advect\<close> called with the array
  \<open>x\<close> as target and as source throws nothing and overwrites the array. Here the grid
  has resolution 1, the cell \<open>(1, 1)\<close> holds 5 and the velocity is zero.
\<close>

theorem advect_self_not_rejected:
  "advect 1 1 X X U V 0 self_mem X = [5, 5, 5, 5, 5, 5, 5, 5, 5] \<and>
   self_mem X = [1, 2, 3, 4, 5, 6, 7, 8, 9]"
proof -
  have c: "clamp_pos (Suc 0) 1 = 1"
    by (simp add: clamp_pos_def Let_def)
  have t: "toInt32 1 = 1"
    by (simp add: toInt32_def Let_def)
  have b: "bilinear (Suc 0) [1, 2, 3, 4, 5, 6, 7, 8, 9] 1 1 = 5"
    by (simp add: bilinear_def Let_def t IXi_def CSB_def)
  have l: "forN 1 (\<lambda>i. forN 1 (\<lambda>j. advect_cell 1 (1 * real 1) X X U V i j)) self_mem = self_mem"
    by (simp add: forN_def advect_cell_def self_mem_def IX_def CSB_def wr_def c b Let_def)
  have s: "set_bnd 1 0 [1, 2, 3, 4, 5, 6, 7, 8, 9] = [5, 5, 5, 5, 5, 5, 5, 5, 5]"
    by (simp add: set_bnd_def set_bnd_edges_def set_bnd_corners_def Let_def IX_def CSB_def)
  have x: "self_mem X = [1, 2, 3, 4, 5, 6, 7, 8, 9]"
    by (simp add: self_mem_def)
  show ?thesis
    unfolding advect_def Let_def l by (simp add: setBoundary_def x s del: One_nat_def)
qed

text \<open>
  C8, amended. In the parallel variant \<^verbatim>\<open>diffuse(target, source, boundary)\<close> ends with
  the exception \<^verbatim>\<open>Can't copy to self.\<close> of \<^verbatim>\<open>copyPixels\<close> exactly when its source and
  its target are the same field, for every boundary kind and every state of the textures.
\<close>

theorem diffuse_gl_rejected_iff_self:
  "diffuse_gl target source boundary g = Inl CantCopyToSelf \<longleftrightarrow> source = target"
  by (simp add: diffuse_gl_def GL_copyPixels_def)

section \<open>Loops that write one or two arrays of the memory\<close>

lemma fold_heap1:
  assumes "\<And>k l. f k (m(t := l)) = m(t := g k l)"
  shows "fold f ks (m(t := l)) = m(t := fold g ks l)"
  by (induction ks arbitrary: l) (simp_all add: assms)

lemma fold_heap2:
  assumes "\<And>k l1 l2. f k (m(t1 := l1, t2 := l2)) = m(t1 := g k l1, t2 := h k l2)"
  shows "fold f ks (m(t1 := l1, t2 := l2)) = m(t1 := fold g ks l1, t2 := fold h ks l2)"
  by (induction ks arbitrary: l1 l2) (simp_all add: assms)

lemma forN2_heap1:
  assumes "\<And>i j l. cell i j (m(t := l)) = m(t := g i j l)"
  shows "forN N (\<lambda>i. forN N (\<lambda>j. cell i j)) (m(t := l)) =
         m(t := forN N (\<lambda>i. forN N (\<lambda>j. g i j)) l)"
  unfolding forN_def
  by (rule fold_heap1) (rule fold_heap1, rule assms)

lemma forN2_heap2:
  assumes "\<And>i j l1 l2. cell i j (m(t1 := l1, t2 := l2)) = m(t1 := g i j l1, t2 := h i j l2)"
  shows "forN N (\<lambda>i. forN N (\<lambda>j. cell i j)) (m(t1 := l1, t2 := l2)) =
         m(t1 := forN N (\<lambda>i. forN N (\<lambda>j. g i j)) l1,
           t2 := forN N (\<lambda>i. forN N (\<lambda>j. h i j)) l2)"
  unfolding forN_def
  by (rule fold_heap2) (rule fold_heap2, rule assms)

section \<open>Loops that write every interior cell from its old value\<close>

lemma fold_upt_Suc: "fold f [1..<Suc (Suc n)] x = f (Suc n) (fold f [1..<Suc n] x)"
  by simp

lemma fold_upt_1: "fold f [1..<Suc 0] x = x"
  by simp

lemma length_fold:
  assumes "\<And>k x. length (f k x) = length x"
  shows "length (fold f ks x) = length x"
  by (induction ks arbitrary: x) (simp_all add: assms)

lemma length_forN:
  assumes "\<And>k x. length (f k x) = length x"
  shows "length (forN N f x) = length x"
  unfolding forN_def by (rule length_fold) (rule assms)

lemma length_cells_upd [simp]: "length (cells_upd N F x) = length x"
  unfolding cells_upd_def by (rule length_forN, rule length_forN) simp

lemma row_upd_nth:
  assumes "length x = SIZE N" "a \<le> N + 1" "c \<le> N + 1" "i \<le> N + 1" "n \<le> N"
  shows "fold (\<lambda>j x. x[IX N i j := F i j (x ! IX N i j)]) [1..<Suc n] x ! IX N a c =
     (if a = i \<and> 1 \<le> c \<and> c \<le> n then F a c (x ! IX N a c) else x ! IX N a c)"
proof -
  define row where "row n = fold (\<lambda>j x. x[IX N i j := F i j (x ! IX N i j)]) [1..<Suc n] x" for n
  have r0: "row 0 = x" by (simp add: row_def)
  have rS: "row (Suc n) = (row n)[IX N i (Suc n) := F i (Suc n) (row n ! IX N i (Suc n))]" for n
    unfolding row_def by (rule fold_upt_Suc)
  have len: "length (row n) = SIZE N" for n
    by (induction n) (simp_all add: r0 rS assms(1))
  have "n \<le> N \<Longrightarrow> row n ! IX N p q =
     (if p = i \<and> 1 \<le> q \<and> q \<le> n then F p q (x ! IX N p q) else x ! IX N p q)"
    if "p \<le> N + 1" "q \<le> N + 1" for n p q
  proof (induction n)
    case 0
    then show ?case by (auto simp add: r0)
  next
    case (Suc n)
    have IH: "row n ! IX N p q =
       (if p = i \<and> 1 \<le> q \<and> q \<le> n then F p q (x ! IX N p q) else x ! IX N p q)"
      using Suc by simp
    have r: "row n ! IX N i (Suc n) = x ! IX N i (Suc n)"
    proof -
      have "k \<le> n \<Longrightarrow> row k ! IX N i (Suc n) = x ! IX N i (Suc n)" for k
      proof (induction k)
        case 0
        then show ?case by (simp add: r0)
      next
        case (Suc k)
        have "IX N i (Suc k) \<noteq> IX N i (Suc n)" using Suc.prems assms(4) by (simp add: IX_inj)
        then show ?case using Suc by (simp add: rS)
      qed
      then show ?thesis by simp
    qed
    have lt: "IX N i (Suc n) < length (row n)"
      using IX_lt [of i N "Suc n"] assms(4) Suc.prems len by simp
    show ?case
      using that assms(4) lt IH r by (auto simp add: rS nth_list_update IX_inj)
  qed
  from this [OF assms(2,3,5)] show ?thesis by (simp only: row_def)
qed

lemma cells_upd_nth:
  assumes "length x = SIZE N" "a \<le> N + 1" "c \<le> N + 1"
  shows "cells_upd N F x ! IX N a c =
     (if 1 \<le> a \<and> a \<le> N \<and> 1 \<le> c \<and> c \<le> N then F a c (x ! IX N a c) else x ! IX N a c)"
proof -
  define row where "row i = fold (\<lambda>j x. x[IX N i j := F i j (x ! IX N i j)]) [1..<Suc N]" for i
  define rows where "rows n = fold row [1..<Suc n] x" for n
  have r0: "rows 0 = x" by (simp add: rows_def)
  have rS: "rows (Suc n) = row (Suc n) (rows n)" for n
    unfolding rows_def by (rule fold_upt_Suc)
  have lrow: "length (row i y) = length y" for i y
    unfolding row_def by (rule length_fold) simp
  have len: "length (rows n) = SIZE N" for n
    by (induction n) (simp_all add: r0 rS lrow assms(1))
  have rown: "row i y ! IX N a c =
     (if a = i \<and> 1 \<le> c \<and> c \<le> N then F a c (y ! IX N a c) else y ! IX N a c)"
    if "length y = SIZE N" "i \<le> N + 1" for i y
    unfolding row_def by (rule row_upd_nth [OF that(1) assms(2,3) that(2) order_refl])
  have "n \<le> N \<Longrightarrow> rows n ! IX N a c =
     (if 1 \<le> a \<and> a \<le> n \<and> 1 \<le> c \<and> c \<le> N then F a c (x ! IX N a c) else x ! IX N a c)" for n
  proof (induction n)
    case 0
    then show ?case by (simp add: r0)
  next
    case (Suc n)
    have IH: "rows n ! IX N a c =
       (if 1 \<le> a \<and> a \<le> n \<and> 1 \<le> c \<and> c \<le> N then F a c (x ! IX N a c) else x ! IX N a c)"
      using Suc by simp
    have i: "Suc n \<le> N + 1" using Suc.prems by simp
    show ?case
      using IH by (auto simp add: rS rown [OF len i])
  qed
  from this [of N] have "rows N ! IX N a c =
     (if 1 \<le> a \<and> a \<le> N \<and> 1 \<le> c \<and> c \<le> N then F a c (x ! IX N a c) else x ! IX N a c)"
    by simp
  moreover have "cells_upd N F x = rows N"
    unfolding cells_upd_def forN_def rows_def row_def by simp
  ultimately show ?thesis by simp
qed

section \<open>Advection\<close>

lemma advect_loops:
  assumes "target \<noteq> source" "target \<noteq> u" "target \<noteq> v"
  shows "forN N (\<lambda>i. forN N (\<lambda>j. advect_cell N dt0 target source u v i j)) m =
     m(target := cells_upd N
        (\<lambda>i j old. bilinear N (m source)
                      (clamp_pos N (real i - dt0 * m u ! IX N i j))
                      (clamp_pos N (real j - dt0 * m v ! IX N i j))) (m target))"
proof -
  have "forN N (\<lambda>i. forN N (\<lambda>j. advect_cell N dt0 target source u v i j))
          (m(target := m target)) =
     m(target := forN N (\<lambda>i. forN N (\<lambda>j l. l[IX N i j :=
         bilinear N (m source) (clamp_pos N (real i - dt0 * m u ! IX N i j))
           (clamp_pos N (real j - dt0 * m v ! IX N i j))])) (m target))"
    by (rule forN2_heap1) (use assms in \<open>simp add: advect_cell_def wr_def Let_def\<close>)
  then show ?thesis by (simp add: cells_upd_def)
qed

lemma bilinear_claimed:
  assumes "N < 2 ^ 31 - 1"
  shows "bilinear N source (clamp_pos N (real i - dt * real N * u ! IX N i j))
           (clamp_pos N (real j - dt * real N * v ! IX N i j)) =
         advect_claimed N dt source u v i j"
proof -
  note t = toInt32_clamp_pos [OF assms]
  have n: "nat (IXi N p q) = IX N (nat p) (nat q)" if "0 \<le> p" "0 \<le> q" for p q
    using that by (rule IXi_nat)
  have f: "0 \<le> \<lfloor>clamp_pos N z\<rfloor>" for z using t(1,2) [of z] by simp
  show ?thesis
    unfolding bilinear_def advect_claimed_def Let_def t(1) clamp_pos_eq [symmetric]
    using f by (simp add: n)
qed

text \<open>
  The sequential \<^verbatim>\<open>advect\<close> with a target array that is none of the arrays it reads:
  every interior cell of the target gets the value of C3, and the other arrays stay.
\<close>

lemma advect_sequential_cell:
  assumes "target \<noteq> source" "target \<noteq> u" "target \<noteq> v"
    and "length (m target) = SIZE N" "N < 2 ^ 31 - 1"
    and "1 \<le> i" "i \<le> N" "1 \<le> j" "j \<le> N"
  shows "advect N dt target source u v b m target ! IX N i j =
           advect_claimed N dt (m source) (m u) (m v) i j"
    and "t \<noteq> target \<Longrightarrow> advect N dt target source u v b m t = m t"
proof -
  have ij: "i \<le> N + 1" "j \<le> N + 1" using assms by simp_all
  show "advect N dt target source u v b m target ! IX N i j =
           advect_claimed N dt (m source) (m u) (m v) i j"
    unfolding advect_def Let_def advect_loops [OF assms(1,2,3)]
    using assms(6-9)
    by (simp add: set_bnd_interior assms(4) cells_upd_nth [OF assms(4) ij]
        bilinear_claimed [OF assms(5)])
  show "t \<noteq> target \<Longrightarrow> advect N dt target source u v b m t = m t"
    unfolding advect_def Let_def advect_loops [OF assms(1,2,3)] by simp
qed

lemma GL_advect_simps [simp]:
  "size_gl (GL_advect dt0 target source u v g) = size_gl g"
  "textures (GL_advect dt0 target source u v g) (Cur target) =
     draw (size_gl g)
       (advect_frag (size_gl g) (textures g (Cur source)) (textures g (Cur u))
          (textures g (Cur v)) dt0)"
  by (simp_all add: GL_advect_def)

text \<open>
  C3. In the parallel variant the fragment program clamps the backtraced position to
  \<open>[0.5, N]\<close>, not to \<open>[0.5, N + 0.5]\<close>. At resolution 1 with \<open>dt = 1/16\<close> the cell with
  velocity \<open>- 4\<close> is traced back to \<open>x = 1.25\<close>: the value of the claim, and of the
  sequential \<^verbatim>\<open>advect\<close>, is \<open>0.75 \<cdot> (- 4) + 0.25 \<cdot> 4 = - 2\<close>, and the parallel
  variant samples at \<open>x = 1\<close> and writes \<open>- 4\<close>.
\<close>

theorem advect_gl_clamps_at_N:
  "textures (advect_gl 1 (1 / 16) U U0 U0 V0 1 wall_gpu) (Cur U) ! IX 1 1 1 = - 4 \<and>
   advect_claimed 1 (1 / 16) (textures wall_gpu (Cur U0)) (textures wall_gpu (Cur U0))
     (textures wall_gpu (Cur V0)) 1 1 = - 2 \<and>
   advect 1 (1 / 16) U U0 U0 V0 1 wall_mem U ! IX 1 1 1 = - 2"
proof -
  have fl: "\<lfloor>5 / 4 :: real\<rfloor> = 1" by (simp add: floor_eq_iff)
  have c: "advect_claimed 1 (1 / 16) wall_cells wall_cells (replicate 9 0) 1 1 = - 2"
    by (simp add: advect_claimed_def Let_def wall_cells_def IX_def CSB_def fl)
  have c3: "CSB 1 = 3" by (simp add: CSB_def)
  have sz: "size_gl (GL_advect (1 / 16 * real 1) U U0 U0 V0 wall_gpu) = CSB 1"
    by (simp add: wall_gpu_def c3 del: One_nat_def)
  have d: "draw (CSB 1) f ! IX 1 1 1 = f (int 1) (int 1)" for f
    by (rule draw_nth) simp_all
  have t: "textures (GL_advect (1 / 16 * real 1) U U0 U0 V0 wall_gpu) (Cur U) =
      draw (CSB 1) (advect_frag (CSB 1) wall_cells wall_cells (replicate 9 0) (1 / 16 * real 1))"
    by (simp add: wall_gpu_def c3 del: One_nat_def)
  have i: "(1::nat) \<le> 1" by simp
  have "textures (advect_gl 1 (1 / 16) U U0 U0 V0 1 wall_gpu) (Cur U) ! IX 1 1 1 =
        advect_frag (CSB 1) wall_cells wall_cells (replicate 9 0) (1 / 16 * real 1) (int 1) (int 1)"
    unfolding advect_gl_def Let_def
    by (simp only: GL_setBoundary_interior [OF sz i i i i] t d)
  also have "\<dots> = - 4"
    by (simp add: advect_frag_def Let_def texelFetch_def clamp_glsl_def int_glsl_def
        wall_cells_def CSB_def)
  finally have g: "textures (advect_gl 1 (1 / 16) U U0 U0 V0 1 wall_gpu) (Cur U) ! IX 1 1 1 = - 4" .
  have m: "wall_mem U0 = wall_cells" "wall_mem V0 = replicate 9 0" "length (wall_mem U) = SIZE 1"
    by (simp_all add: wall_mem_def SIZE_def CSB_def)
  have s: "advect 1 (1 / 16) U U0 U0 V0 1 wall_mem U ! IX 1 1 1 = - 2"
    by (subst advect_sequential_cell(1)) (simp_all add: m c del: One_nat_def)
  show ?thesis
    using g s c by (simp add: wall_gpu_def)
qed

section \<open>The relaxation sweep\<close>

lemma length_lin_cell_arr [simp]: "length (lin_cell_arr N x0 a c i j x) = length x"
  by (simp add: lin_cell_arr_def)

lemma length_lin_sweep_arr [simp]: "length (lin_sweep_arr N x0 a c x) = length x"
  unfolding lin_sweep_arr_def by (rule length_forN, rule length_forN) simp

lemma lin_row_nth:
  assumes "length z = SIZE N" "1 \<le> i" "i \<le> N" "n \<le> N" "p \<le> N + 1" "q \<le> N + 1"
  shows "fold (lin_cell_arr N x0 a c i) [1..<Suc n] z ! IX N p q =
     (if p = i \<and> 1 \<le> q \<and> q \<le> n
      then (x0 ! IX N i q +
            a * (z ! IX N (i - 1) q + z ! IX N (i + 1) q +
                 fold (lin_cell_arr N x0 a c i) [1..<Suc n] z ! IX N i (q - 1) +
                 z ! IX N i (q + 1))) * (1 / c)
      else z ! IX N p q)"
proof -
  define row where "row n = fold (lin_cell_arr N x0 a c i) [1..<Suc n] z" for n
  have r0: "row 0 = z" by (simp add: row_def)
  have rS: "row (Suc n) = lin_cell_arr N x0 a c i (Suc n) (row n)" for n
    unfolding row_def by (rule fold_upt_Suc)
  have len: "length (row n) = SIZE N" for n
    by (induction n) (simp_all add: r0 rS assms(1))
  have "n \<le> N \<Longrightarrow> (\<forall>p q. p \<le> N + 1 \<longrightarrow> q \<le> N + 1 \<longrightarrow> row n ! IX N p q =
     (if p = i \<and> 1 \<le> q \<and> q \<le> n
      then (x0 ! IX N i q +
            a * (z ! IX N (i - 1) q + z ! IX N (i + 1) q +
                 row n ! IX N i (q - 1) + z ! IX N i (q + 1))) * (1 / c)
      else z ! IX N p q))" for n
  proof (induction n)
    case 0
    then show ?case by (simp add: r0)
  next
    case (Suc n)
    have n: "Suc n \<le> N" "n \<le> N" using Suc.prems by simp_all
    have IH: "\<And>p q. p \<le> N + 1 \<Longrightarrow> q \<le> N + 1 \<Longrightarrow> row n ! IX N p q =
     (if p = i \<and> 1 \<le> q \<and> q \<le> n
      then (x0 ! IX N i q +
            a * (z ! IX N (i - 1) q + z ! IX N (i + 1) q +
                 row n ! IX N i (q - 1) + z ! IX N i (q + 1))) * (1 / c)
      else z ! IX N p q)"
      using Suc.IH [OF n(2)] by blast
    have i: "i \<le> N + 1" "i - 1 \<le> N + 1" "i + 1 \<le> N + 1" "i - 1 \<noteq> i" using assms(2,3) by simp_all
    have a1: "row n ! IX N (i - 1) (Suc n) = z ! IX N (i - 1) (Suc n)"
      using i n by (subst IH) simp_all
    have a2: "row n ! IX N (i + 1) (Suc n) = z ! IX N (i + 1) (Suc n)"
      using i n by (subst IH) simp_all
    have a3: "row n ! IX N i (Suc n + 1) = z ! IX N i (Suc n + 1)"
      using i n by (subst IH) simp_all
    define val where "val = (x0 ! IX N i (Suc n) +
        a * (z ! IX N (i - 1) (Suc n) + z ! IX N (i + 1) (Suc n) +
             row n ! IX N i n + z ! IX N i (Suc n + 1))) * (1 / c)"
    have step: "row (Suc n) = (row n)[IX N i (Suc n) := val]"
      by (simp only: rS lin_cell_arr_def val_def diff_Suc_1 a1 a2 a3)
    have lt: "IX N i (Suc n) < length (row n)"
      using IX_lt [of i N "Suc n"] i n len by simp
    have same: "row (Suc n) ! IX N p q = row n ! IX N p q"
      if "p \<le> N + 1" "\<not> (p = i \<and> q = Suc n)" for p q
      using that i by (auto simp add: step nth_list_update IX_inj)
    have new: "row (Suc n) ! IX N i (Suc n) = val"
      using lt by (simp add: step)
    show ?case
    proof (intro allI impI)
      fix p q assume pq: "p \<le> N + 1" "q \<le> N + 1"
      consider (new) "p = i" "q = Suc n" | (old) "p = i" "1 \<le> q" "q \<le> n"
        | (other) "\<not> (p = i \<and> 1 \<le> q \<and> q \<le> Suc n)"
        by linarith
      then show "row (Suc n) ! IX N p q =
         (if p = i \<and> 1 \<le> q \<and> q \<le> Suc n
          then (x0 ! IX N i q +
                a * (z ! IX N (i - 1) q + z ! IX N (i + 1) q +
                     row (Suc n) ! IX N i (q - 1) + z ! IX N i (q + 1))) * (1 / c)
          else z ! IX N p q)"
      proof cases
        case new
        have "row (Suc n) ! IX N i n = row n ! IX N i n"
          using i by (intro same) simp_all
        then show ?thesis using new by (simp add: \<open>row (Suc n) ! IX N i (Suc n) = val\<close> val_def)
      next
        case old
        have e1: "row (Suc n) ! IX N i (q - 1) = row n ! IX N i (q - 1)"
          using i old by (intro same) simp_all
        have e2: "row (Suc n) ! IX N i q = row n ! IX N i q"
          using i old by (intro same) simp_all
        have "row n ! IX N i q =
            (x0 ! IX N i q +
                a * (z ! IX N (i - 1) q + z ! IX N (i + 1) q +
                     row n ! IX N i (q - 1) + z ! IX N i (q + 1))) * (1 / c)"
          using IH [OF pq] old by simp
        then show ?thesis using old e1 e2 by simp
      next
        case other
        then have "row (Suc n) ! IX N p q = row n ! IX N p q"
          using pq by (intro same) auto
        moreover have "row n ! IX N p q = z ! IX N p q"
          using IH [OF pq] other by auto
        ultimately show ?thesis using other by auto
      qed
    qed
  qed
  then show ?thesis using assms(4,5,6) unfolding row_def by blast
qed


lemma lin_sweep_arr_nth:
  assumes "length x = SIZE N" "p \<le> N + 1" "q \<le> N + 1"
  shows "lin_sweep_arr N x0 a c x ! IX N p q =
     (if 1 \<le> p \<and> p \<le> N \<and> 1 \<le> q \<and> q \<le> N
      then (x0 ! IX N p q +
            a * (lin_sweep_arr N x0 a c x ! IX N (p - 1) q + x ! IX N (p + 1) q +
                 lin_sweep_arr N x0 a c x ! IX N p (q - 1) + x ! IX N p (q + 1))) * (1 / c)
      else x ! IX N p q)"
proof -
  define rowf where "rowf i = fold (lin_cell_arr N x0 a c i) [1..<Suc N]" for i
  define rows where "rows m = fold rowf [1..<Suc m] x" for m
  have r0: "rows 0 = x" by (simp add: rows_def)
  have rS: "rows (Suc m) = rowf (Suc m) (rows m)" for m
    unfolding rows_def by (rule fold_upt_Suc)
  have lrow: "length (rowf i y) = length y" for i y
    unfolding rowf_def by (rule length_fold) simp
  have len: "length (rows m) = SIZE N" for m
    by (induction m) (simp_all add: r0 rS lrow assms(1))
  have "m \<le> N \<Longrightarrow> (\<forall>p q. p \<le> N + 1 \<longrightarrow> q \<le> N + 1 \<longrightarrow> rows m ! IX N p q =
     (if 1 \<le> p \<and> p \<le> m \<and> 1 \<le> q \<and> q \<le> N
      then (x0 ! IX N p q +
            a * (rows m ! IX N (p - 1) q + x ! IX N (p + 1) q +
                 rows m ! IX N p (q - 1) + x ! IX N p (q + 1))) * (1 / c)
      else x ! IX N p q))" for m
  proof (induction m)
    case 0
    then show ?case by (simp add: r0)
  next
    case (Suc m)
    have m: "Suc m \<le> N" "m \<le> N" "1 \<le> Suc m" using Suc.prems by simp_all
    have IH: "\<And>p q. p \<le> N + 1 \<Longrightarrow> q \<le> N + 1 \<Longrightarrow> rows m ! IX N p q =
     (if 1 \<le> p \<and> p \<le> m \<and> 1 \<le> q \<and> q \<le> N
      then (x0 ! IX N p q +
            a * (rows m ! IX N (p - 1) q + x ! IX N (p + 1) q +
                 rows m ! IX N p (q - 1) + x ! IX N p (q + 1))) * (1 / c)
      else x ! IX N p q)"
      using Suc.IH [OF m(2)] by blast
    have R: "rows (Suc m) ! IX N p q =
       (if p = Suc m \<and> 1 \<le> q \<and> q \<le> N
        then (x0 ! IX N (Suc m) q +
              a * (rows m ! IX N (Suc m - 1) q + rows m ! IX N (Suc m + 1) q +
                   rows (Suc m) ! IX N (Suc m) (q - 1) + rows m ! IX N (Suc m) (q + 1))) *
             (1 / c)
        else rows m ! IX N p q)" if "p \<le> N + 1" "q \<le> N + 1" for p q
      unfolding rS rowf_def
      by (rule lin_row_nth [OF len m(3) m(1) order_refl that])
    have keep: "rows (Suc m) ! IX N p q = rows m ! IX N p q"
      if "p \<le> N + 1" "q \<le> N + 1" "p \<noteq> Suc m" for p q
      using R [OF that(1,2)] that(3) by simp
    have old: "rows m ! IX N p q = x ! IX N p q"
      if "p \<le> N + 1" "q \<le> N + 1" "m < p" for p q
      using IH [OF that(1,2)] that(3) by simp
    show ?case
    proof (intro allI impI)
      fix p q assume pq: "p \<le> N + 1" "q \<le> N + 1"
      consider (new) "p = Suc m" "1 \<le> q" "q \<le> N" | (prev) "1 \<le> p" "p \<le> m" "1 \<le> q" "q \<le> N"
        | (other) "\<not> (1 \<le> p \<and> p \<le> Suc m \<and> 1 \<le> q \<and> q \<le> N)"
        by linarith
      then show "rows (Suc m) ! IX N p q =
         (if 1 \<le> p \<and> p \<le> Suc m \<and> 1 \<le> q \<and> q \<le> N
          then (x0 ! IX N p q +
                a * (rows (Suc m) ! IX N (p - 1) q + x ! IX N (p + 1) q +
                     rows (Suc m) ! IX N p (q - 1) + x ! IX N p (q + 1))) * (1 / c)
          else x ! IX N p q)"
      proof cases
        case new
        have k1: "rows (Suc m) ! IX N (Suc m - 1) q = rows m ! IX N (Suc m - 1) q"
          using m pq by (intro keep) simp_all
        have k2: "rows m ! IX N (Suc m + 1) q = x ! IX N (Suc m + 1) q"
          using m pq by (intro old) simp_all
        have k3: "rows m ! IX N (Suc m) (q + 1) = x ! IX N (Suc m) (q + 1)"
          using m pq new by (intro old) simp_all
        have "rows (Suc m) ! IX N (Suc m) q =
            (x0 ! IX N (Suc m) q +
              a * (rows m ! IX N (Suc m - 1) q + rows m ! IX N (Suc m + 1) q +
                   rows (Suc m) ! IX N (Suc m) (q - 1) + rows m ! IX N (Suc m) (q + 1))) *
             (1 / c)"
          using R [of "Suc m" q] m pq new by simp
        then show ?thesis using new k1 k2 k3 by simp
      next
        case prev
        have k1: "rows (Suc m) ! IX N (p - 1) q = rows m ! IX N (p - 1) q"
          using prev pq by (intro keep) simp_all
        have k2: "rows (Suc m) ! IX N p (q - 1) = rows m ! IX N p (q - 1)"
          using prev pq by (intro keep) simp_all
        have k3: "rows (Suc m) ! IX N p q = rows m ! IX N p q"
          using prev pq by (intro keep) simp_all
        have "rows m ! IX N p q =
            (x0 ! IX N p q +
              a * (rows m ! IX N (p - 1) q + x ! IX N (p + 1) q +
                   rows m ! IX N p (q - 1) + x ! IX N p (q + 1))) * (1 / c)"
          using IH [OF pq] prev by simp
        then show ?thesis using prev k1 k2 k3 by simp
      next
        case other
        have "rows (Suc m) ! IX N p q = rows m ! IX N p q"
          using R [OF pq] other by auto
        moreover have "rows m ! IX N p q = x ! IX N p q"
          using IH [OF pq] other by auto
        ultimately show ?thesis using other by auto
      qed
    qed
  qed
  from this [of N] have "rows N ! IX N p q =
     (if 1 \<le> p \<and> p \<le> N \<and> 1 \<le> q \<and> q \<le> N
      then (x0 ! IX N p q +
            a * (rows N ! IX N (p - 1) q + x ! IX N (p + 1) q +
                 rows N ! IX N p (q - 1) + x ! IX N p (q + 1))) * (1 / c)
      else x ! IX N p q)"
    using assms(2,3) by blast
  moreover have "lin_sweep_arr N x0 a c x = rows N"
    unfolding lin_sweep_arr_def forN_def rows_def rowf_def by simp
  ultimately show ?thesis by simp
qed

lemma lin_sweep_arr_gs:
  assumes "length x = SIZE N"
  shows "gs_sweep N x0 a c x (lin_sweep_arr N x0 a c x)"
  unfolding gs_sweep_def
proof (intro conjI ballI)
  show "length (lin_sweep_arr N x0 a c x) = length x" by simp
next
  fix i j assume "i \<in> {1..N}" "j \<in> {1..N}"
  then have ij: "i \<le> N + 1" "j \<le> N + 1" "1 \<le> i \<and> i \<le> N \<and> 1 \<le> j \<and> j \<le> N" by simp_all
  from lin_sweep_arr_nth [OF assms ij(1,2), of x0 a c] ij(3)
  show "lin_sweep_arr N x0 a c x ! IX N i j =
          (x0 ! IX N i j +
           a * (lin_sweep_arr N x0 a c x ! IX N (i - 1) j + x ! IX N (i + 1) j +
                lin_sweep_arr N x0 a c x ! IX N i (j - 1) + x ! IX N i (j + 1))) / c"
    by simp
next
  fix i j assume "i \<in> {0..N + 1}" "j \<in> {0..N + 1}"
  then have ij: "i \<le> N + 1" "j \<le> N + 1" by simp_all
  from lin_sweep_arr_nth [OF assms ij, of x0 a c]
  show "(1 \<le> i \<and> i \<le> N \<and> 1 \<le> j \<and> j \<le> N) \<or>
        lin_sweep_arr N x0 a c x ! IX N i j = x ! IX N i j"
    by auto
qed

section \<open>Diffusion\<close>

lemma fold_const_funpow: "fold (\<lambda>k. f) [0..<n] x = (f ^^ n) x"
  by (induction n) simp_all

lemma lin_sweep_heap:
  assumes "x \<noteq> x0"
  shows "lin_sweep N x x0 a c (m(x := l)) = m(x := lin_sweep_arr N (m x0) a c l)"
  unfolding lin_sweep_def lin_sweep_arr_def
  by (rule forN2_heap1) (use assms in \<open>simp add: lin_cell_def lin_cell_arr_def wr_def\<close>)

lemma solveLinear_heap:
  assumes "x \<noteq> x0"
  shows "solveLinear N x x0 b a c m = m(x := solve_arr N b (m x0) a c (m x))"
proof -
  have "fold (\<lambda>k m. setBoundary N x b (lin_sweep N x x0 a c m)) [0..<20] (m(x := m x)) =
        m(x := fold (\<lambda>k l. set_bnd N b (lin_sweep_arr N (m x0) a c l)) [0..<20] (m x))"
    by (rule fold_heap1) (simp add: lin_sweep_heap [OF assms] setBoundary_def)
  then show ?thesis
    by (simp add: solveLinear_def solve_arr_def fold_const_funpow)
qed

lemma diffuse_gl_copy:
  assumes "tt \<noteq> ts"
  shows "diffuse_gl tt ts b g =
     Inr (g\<lparr>textures := (textures g)
            (Cur ts := draw (size_gl g) (setBoundary_frag (size_gl g) (textures g (Cur ts)) b),
             Next ts := textures g (Cur ts),
             Cur tt := draw (size_gl g) (setBoundary_frag (size_gl g) (textures g (Cur ts)) b))\<rparr>)"
  using assms by (simp add: diffuse_gl_def GL_copyPixels_def GL_setBoundary_def swap_into_def)

text \<open>
  C2, amended. With a target array that is not the source array, the sequential
  \<^verbatim>\<open>diffuse\<close> takes \<open>a = dt \<cdot> diff \<cdot> N\<^sup>2\<close> and \<open>c = 1 + 4a\<close> and replaces the target by
  the result of exactly 20 rounds, each a relaxation sweep followed by the boundary
  enforcement; a sweep changes an array of the grid's size as \<open>gs_sweep\<close> says. The rate
  and the time step are not negative, so that \<open>c\<close> is not zero. \<^verbatim>\<open>diffuse\<close> of the
  parallel variant takes no rate and no time step and makes no sweep: it enforces the
  boundary on the source texture and copies the result to the target.
\<close>

theorem diffuse_relaxation:
  assumes "target \<noteq> source" "length x = SIZE N" "0 \<le> dt" "0 \<le> diff" "tt \<noteq> ts"
  shows "(let a = dt * diff * real N * real N; c = 1 + 4 * a
          in diffuse N dt target source diff b m =
               m(target :=
                 ((\<lambda>x. set_bnd N b (lin_sweep_arr N (m source) a c x)) ^^ 20) (m target)) \<and>
             gs_sweep N (m source) a c x (lin_sweep_arr N (m source) a c x)) \<and>
         diffuse_gl tt ts b g =
           Inr (g\<lparr>textures := (textures g)
             (Cur ts := draw (size_gl g) (setBoundary_frag (size_gl g) (textures g (Cur ts)) b),
              Next ts := textures g (Cur ts),
              Cur tt := draw (size_gl g) (setBoundary_frag (size_gl g) (textures g (Cur ts)) b))\<rparr>)"
  unfolding Let_def
  using solveLinear_heap [OF assms(1)] lin_sweep_arr_gs [OF assms(2)] diffuse_gl_copy [OF assms(5)]
  by (simp add: diffuse_def solve_arr_def Let_def)

theorem diffuse_relaxation_witness:
  "X0 \<noteq> X \<and> length one_cells = SIZE 1 \<and> (0::real) \<le> 1 \<and> (0::real) \<le> 2 \<and>
   (let a = 1 * 2 * real 1 * real 1; c = 1 + 4 * a
    in diffuse 1 1 X0 X 2 0 one_mem =
         one_mem(X0 :=
           ((\<lambda>x. set_bnd 1 0 (lin_sweep_arr 1 (one_mem X) a c x)) ^^ 20) (one_mem X0)) \<and>
       gs_sweep 1 (one_mem X) a c one_cells (lin_sweep_arr 1 (one_mem X) a c one_cells)) \<and>
   diffuse_gl X0 X 0 one_gpu =
     Inr (one_gpu\<lparr>textures := (textures one_gpu)
       (Cur X := draw (size_gl one_gpu)
          (setBoundary_frag (size_gl one_gpu) (textures one_gpu (Cur X)) 0),
        Next X := textures one_gpu (Cur X),
        Cur X0 := draw (size_gl one_gpu)
          (setBoundary_frag (size_gl one_gpu) (textures one_gpu (Cur X)) 0))\<rparr>)"
proof -
  have h: "X0 \<noteq> X" "length one_cells = SIZE 1" "(0::real) \<le> 1" "(0::real) \<le> 2"
    by (simp_all add: one_cells_def SIZE_def CSB_def)
  show ?thesis
    using h diffuse_relaxation [OF h h(1), where b = 0 and m = one_mem and g = one_gpu] by blast
qed

text \<open>
  C2, as the claim states it, fails for the parallel variant. At resolution 1, with the
  source texture holding 1 in the cell and an empty target, the 20 sweeps of the claim
  with \<open>dt = 1\<close> and \<open>\<kappa> = 1\<close> (\<open>a = 1\<close>, \<open>c = 5\<close>) give \<open>1 - (4/5)\<^sup>2\<^sup>0\<close> in the cell;
  \<^verbatim>\<open>diffuse\<close> of the parallel variant gives 1.
\<close>

lemma claimed_round:
  "set_bnd 1 0 (sweep_claimed 1 one_cells 1 5 (replicate 9 v)) = replicate 9 ((1 + 4 * v) / 5)"
proof -
  have r: "replicate 9 w = [w, w, w, w, w, w, w, w, w]" for w :: real
    by (simp add: numeral_eq_Suc)
  have "sweep_claimed 1 one_cells 1 5 [v, v, v, v, v, v, v, v, v] =
        [v, v, v, v, (1 + 4 * v) / 5, v, v, v, v]"
    by (simp add: sweep_claimed_def cells_upd_def forN_def IX_def CSB_def one_cells_def)
  moreover have "set_bnd 1 0 [v, v, v, v, w, v, v, v, v] = [w, w, w, w, w, w, w, w, w]" for w
    by (simp add: set_bnd_def set_bnd_edges_def set_bnd_corners_def Let_def IX_def CSB_def)
  ultimately show ?thesis by (simp only: r)
qed

lemma claimed_rounds:
  "((\<lambda>x. set_bnd 1 0 (sweep_claimed 1 one_cells 1 5 x)) ^^ n) (replicate 9 0) =
   replicate 9 (1 - (4 / 5) ^ n)"
proof (induction n)
  case 0
  then show ?case by simp
next
  case (Suc n)
  have e: "(1 + 4 * (1 - (4 / 5) ^ n)) / 5 = 1 - (4 / 5 :: real) ^ Suc n"
    by (simp add: field_simps)
  show ?case by (simp only: funpow.simps comp_apply Suc claimed_round e)
qed

theorem diffuse_gl_no_relaxation:
  "textures (projr (diffuse_gl X0 X 0 one_gpu)) (Cur X0) ! IX 1 1 1 = 1 \<and>
   diffuse_claimed 1 1 1 0 (textures one_gpu (Cur X)) (textures one_gpu (Cur X0)) ! IX 1 1 1 =
     1 - (4 / 5) ^ 20 \<and>
   textures (projr (diffuse_gl X0 X 0 one_gpu)) (Cur X0) ! IX 1 1 1 \<noteq>
   diffuse_claimed 1 1 1 0 (textures one_gpu (Cur X)) (textures one_gpu (Cur X0)) ! IX 1 1 1"
proof -
  have c3: "CSB 1 = 3" by (simp add: CSB_def)
  have d: "draw (CSB 1) f ! IX 1 1 1 = f (int 1) (int 1)" for f
    by (rule draw_nth) simp_all
  have "diffuse_gl X0 X 0 one_gpu =
     Inr (one_gpu\<lparr>textures := (textures one_gpu)
       (Cur X := draw (size_gl one_gpu)
          (setBoundary_frag (size_gl one_gpu) (textures one_gpu (Cur X)) 0),
        Next X := textures one_gpu (Cur X),
        Cur X0 := draw (size_gl one_gpu)
          (setBoundary_frag (size_gl one_gpu) (textures one_gpu (Cur X)) 0))\<rparr>)"
    by (rule diffuse_gl_copy) simp
  then have "textures (projr (diffuse_gl X0 X 0 one_gpu)) (Cur X0) =
      draw (CSB 1) (setBoundary_frag (CSB 1) one_cells 0)"
    by (simp add: one_gpu_def c3 del: One_nat_def)
  then have "textures (projr (diffuse_gl X0 X 0 one_gpu)) (Cur X0) ! IX 1 1 1 =
      setBoundary_frag (CSB 1) one_cells 0 (int 1) (int 1)"
    by (simp only: d)
  also have "\<dots> = 1"
    by (subst setBoundary_frag_val) (simp_all add: bnd_val_def one_cells_def IX_def CSB_def)
  finally have g: "textures (projr (diffuse_gl X0 X 0 one_gpu)) (Cur X0) ! IX 1 1 1 = 1" .
  have "diffuse_claimed 1 1 1 0 (textures one_gpu (Cur X)) (textures one_gpu (Cur X0)) =
      replicate 9 (1 - (4 / 5) ^ 20)"
    unfolding diffuse_claimed_def Let_def
    using claimed_rounds [of 20] by (simp add: one_gpu_def del: One_nat_def)
  then have c: "diffuse_claimed 1 1 1 0 (textures one_gpu (Cur X)) (textures one_gpu (Cur X0))
      ! IX 1 1 1 = 1 - (4 / 5) ^ 20"
    by (simp add: IX_def CSB_def)
  have "(1::real) - (4 / 5) ^ 20 \<noteq> 1" by simp
  then show ?thesis using g c by simp
qed

section \<open>Projection\<close>

lemma project_heap:
  assumes "distinct [u, v, p, dv]"
  shows "project N u v p dv m =
     m(dv := div_arr N (m u) (m v) (m dv),
       p := pressure_arr N (div_arr N (m u) (m v) (m dv)) (m p),
       u := grad_u_arr N (pressure_arr N (div_arr N (m u) (m v) (m dv)) (m p)) (m u),
       v := grad_v_arr N (pressure_arr N (div_arr N (m u) (m v) (m dv)) (m p)) (m v))"
proof -
  have d: "u \<noteq> v" "u \<noteq> p" "u \<noteq> dv" "v \<noteq> p" "v \<noteq> dv" "p \<noteq> dv"
    "v \<noteq> u" "p \<noteq> u" "dv \<noteq> u" "p \<noteq> v" "dv \<noteq> v" "dv \<noteq> p"
    using assms by auto
  define D0 where "D0 = cells_upd N (\<lambda>i j old.
       - 0.5 * real N * (m u ! IX N (i + 1) j - m u ! IX N (i - 1) j +
                         m v ! IX N i (j + 1) - m v ! IX N i (j - 1))) (m dv)"
  define P0 where "P0 = cells_upd N (\<lambda>i j old. 0) (m p)"
  define D where "D = div_arr N (m u) (m v) (m dv)"
  define P where "P = pressure_arr N D (m p)"
  have m1: "forN N (\<lambda>i. forN N (\<lambda>j. div_cell N u v p dv i j)) m = m(dv := D0, p := P0)"
  proof -
    have "forN N (\<lambda>i. forN N (\<lambda>j. div_cell N u v p dv i j)) (m(dv := m dv, p := m p)) =
      m(dv := forN N (\<lambda>i. forN N (\<lambda>j l. l[IX N i j :=
              - 0.5 * real N * (m u ! IX N (i + 1) j - m u ! IX N (i - 1) j +
                                m v ! IX N i (j + 1) - m v ! IX N i (j - 1))])) (m dv),
        p := forN N (\<lambda>i. forN N (\<lambda>j l. l[IX N i j := 0])) (m p))"
      by (rule forN2_heap2) (use d in \<open>simp add: div_cell_def wr_def Let_def fun_upd_twist\<close>)
    moreover have "m(dv := m dv, p := m p) = m" by simp
    ultimately show ?thesis by (simp only: D0_def P0_def cells_upd_def)
  qed
  have m3: "setBoundary N p 0 (setBoundary N dv 0 (m(dv := D0, p := P0))) =
      m(dv := D, p := set_bnd N 0 P0)"
    using d by (simp add: setBoundary_def D_def div_arr_def D0_def fun_upd_twist)
  have m4: "solveLinear N p dv 0 1 4 (m(dv := D, p := set_bnd N 0 P0)) = m(dv := D, p := P)"
    using d by (simp add: solveLinear_heap P_def pressure_arr_def P0_def)
  define m4 where "m4 = m(dv := D, p := P)"
  have m5: "forN N (\<lambda>i. forN N (\<lambda>j. grad_cell N u v p i j)) m4 =
      m4(u := cells_upd N (\<lambda>i j old.
               old - 0.5 * (P ! IX N (i + 1) j - P ! IX N (i - 1) j) * (1 / real N)) (m u),
         v := cells_upd N (\<lambda>i j old.
               old - 0.5 * (P ! IX N i (j + 1) - P ! IX N i (j - 1)) * (1 / real N)) (m v))"
  proof -
    have p: "m4 p = P" "m4 u = m u" "m4 v = m v" using d by (simp_all add: m4_def)
    have "forN N (\<lambda>i. forN N (\<lambda>j. grad_cell N u v p i j)) (m4(u := m4 u, v := m4 v)) =
      m4(u := forN N (\<lambda>i. forN N (\<lambda>j l. l[IX N i j :=
              l ! IX N i j -
              0.5 * (m4 p ! IX N (i + 1) j - m4 p ! IX N (i - 1) j) * (1 / real N)])) (m4 u),
         v := forN N (\<lambda>i. forN N (\<lambda>j l. l[IX N i j :=
              l ! IX N i j -
              0.5 * (m4 p ! IX N i (j + 1) - m4 p ! IX N i (j - 1)) * (1 / real N)])) (m4 v))"
      by (rule forN2_heap2) (use d in \<open>simp add: grad_cell_def wr_def Let_def fun_upd_twist\<close>)
    moreover have "m4(u := m4 u, v := m4 v) = m4" by simp
    ultimately show ?thesis by (simp only: cells_upd_def p)
  qed
  have "project N u v p dv m =
     m4(u := grad_u_arr N P (m u), v := grad_v_arr N P (m v))"
    unfolding project_def Let_def m1 m3 m4 m4_def [symmetric] m5
    using d by (simp add: setBoundary_def grad_u_arr_def grad_v_arr_def fun_upd_twist)
  then show ?thesis by (simp add: m4_def D_def P_def)
qed

section \<open>Projection of a field without divergence\<close>

lemma list_eq_IX:
  assumes "length x = SIZE N" "length y = SIZE N"
    and "\<And>a c. a \<le> N + 1 \<Longrightarrow> c \<le> N + 1 \<Longrightarrow> x ! IX N a c = y ! IX N a c"
  shows "x = y"
proof (rule nth_equalityI)
  show "length x = length y" using assms by simp
next
  fix k assume "k < length x"
  then have k: "k < CSB N * CSB N" using assms(1) by (simp add: SIZE_def)
  have pos: "0 < CSB N" by (simp add: CSB_def)
  have a: "k mod CSB N \<le> N + 1"
    using mod_less_divisor [OF pos, of k] by (simp add: CSB_def)
  have "k div CSB N < CSB N" using k by (simp add: less_mult_imp_div_less)
  then have c: "k div CSB N \<le> N + 1" by (simp add: CSB_def)
  have "IX N (k mod CSB N) (k div CSB N) = k" by (simp add: IX_def)
  with assms(3) [OF a c] show "x ! k = y ! k" by simp
qed

lemma set_bnd_zero:
  assumes "length x = SIZE N" "1 \<le> N"
    and "\<And>i j. 1 \<le> i \<Longrightarrow> i \<le> N \<Longrightarrow> 1 \<le> j \<Longrightarrow> j \<le> N \<Longrightarrow> x ! IX N i j = 0"
  shows "set_bnd N b x = replicate (SIZE N) 0"
proof (rule list_eq_IX [of _ N])
  show "length (set_bnd N b x) = SIZE N" using assms(1) by simp
  show "length (replicate (SIZE N) (0::real)) = SIZE N" by simp
next
  fix a c assume ac: "a \<le> N + 1" "c \<le> N + 1"
  have ring: "bnd_val N b x p q = 0"
    if "p \<le> N + 1" "q \<le> N + 1" "\<not> ((p = 0 \<or> p = N + 1) \<and> (q = 0 \<or> q = N + 1))" for p q
  proof -
    have i: "x ! IX N i j = 0" if "0 < i" "i \<le> N" "0 < j" "j \<le> N" for i j
      using that assms(3) [of i j] by simp
    show ?thesis
      using that assms(2) by (auto simp add: bnd_val_def refl_def i)
  qed
  have r1: "bnd_val N b x 1 0 = 0" "bnd_val N b x 0 1 = 0"
    "bnd_val N b x 1 (N + 1) = 0" "bnd_val N b x 0 N = 0"
    "bnd_val N b x N 0 = 0" "bnd_val N b x (N + 1) 1 = 0"
    "bnd_val N b x N (N + 1) = 0" "bnd_val N b x (N + 1) N = 0"
    using assms(2) by (simp_all add: ring)
  have "set_bnd N b x ! IX N a c = 0"
  proof (cases "(a = 0 \<or> a = N + 1) \<and> (c = 0 \<or> c = N + 1)")
    case True
    then show ?thesis
      unfolding set_bnd_nth [OF assms(1) ac assms(2)] r1 by auto
  next
    case False
    then have "set_bnd N b x ! IX N a c = bnd_val N b x a c"
      unfolding set_bnd_nth [OF assms(1) ac assms(2)] by auto
    then show ?thesis using ring [OF ac False] by simp
  qed
  then show "set_bnd N b x ! IX N a c = replicate (SIZE N) 0 ! IX N a c"
    using IX_lt [OF ac] by simp
qed

lemma fold_fix:
  assumes "\<And>k. k \<in> set ks \<Longrightarrow> f k z = z"
  shows "fold f ks z = z"
  using assms by (induction ks) simp_all

lemma lin_sweep_zero:
  "lin_sweep_arr N (replicate (SIZE N) 0) a c (replicate (SIZE N) 0) = replicate (SIZE N) 0"
proof -
  have cell: "lin_cell_arr N (replicate (SIZE N) 0) a c i j (replicate (SIZE N) 0) =
      replicate (SIZE N) 0" if "i \<in> set [1..<N + 1]" "j \<in> set [1..<N + 1]" for i j
  proof -
    have ij: "1 \<le> i" "i \<le> N" "1 \<le> j" "j \<le> N" using that by auto
    have "IX N i j < SIZE N" "IX N (i - 1) j < SIZE N" "IX N (i + 1) j < SIZE N"
      "IX N i (j - 1) < SIZE N" "IX N i (j + 1) < SIZE N"
      using ij by (intro IX_lt; simp)+
    then show ?thesis
      by (simp add: lin_cell_arr_def list_update_same_conv)
  qed
  show ?thesis
    unfolding lin_sweep_arr_def forN_def
    by (rule fold_fix, rule fold_fix, rule cell)
qed

lemma solve_arr_zero:
  assumes "1 \<le> N"
  shows "solve_arr N b (replicate (SIZE N) 0) a c (replicate (SIZE N) 0) = replicate (SIZE N) 0"
proof -
  have z: "set_bnd N b (replicate (SIZE N) 0) = replicate (SIZE N) 0"
    by (rule set_bnd_zero) (use assms IX_lt in \<open>simp_all\<close>)
  have "((\<lambda>x. set_bnd N b (lin_sweep_arr N (replicate (SIZE N) 0) a c x)) ^^ n)
      (replicate (SIZE N) 0) = replicate (SIZE N) 0" for n
    by (induction n) (simp_all add: lin_sweep_zero z)
  then show ?thesis by (simp add: solve_arr_def)
qed

lemma pressure_arr_zero:
  assumes "length p = SIZE N" "1 \<le> N"
  shows "pressure_arr N (replicate (SIZE N) 0) p = replicate (SIZE N) 0"
proof -
  have "set_bnd N 0 (cells_upd N (\<lambda>i j old. 0) p) = replicate (SIZE N) 0"
    by (rule set_bnd_zero) (use assms in \<open>simp_all add: cells_upd_nth\<close>)
  then show ?thesis by (simp add: pressure_arr_def solve_arr_zero [OF assms(2)])
qed

lemma div_arr_zero:
  assumes "length dv = SIZE N" "1 \<le> N"
    and "\<forall>i \<in> {1..N}. \<forall>j \<in> {1..N}. divergence_at N u v i j = 0"
  shows "div_arr N u v dv = replicate (SIZE N) 0"
  unfolding div_arr_def
proof (rule set_bnd_zero)
  fix i j assume ij: "1 \<le> i" "i \<le> N" "1 \<le> j" "j \<le> N"
  then have "divergence_at N u v i j = 0" using assms(3) by simp
  then show "cells_upd N (\<lambda>i j old.
       - 0.5 * real N * (u ! IX N (i + 1) j - u ! IX N (i - 1) j +
                         v ! IX N i (j + 1) - v ! IX N i (j - 1))) dv ! IX N i j = 0"
    using ij by (simp add: cells_upd_nth assms(1) divergence_at_def algebra_simps)
qed (use assms in simp_all)

lemma grad_zero:
  assumes "length u = SIZE N"
  shows "cells_upd N (\<lambda>i j old.
           old - 0.5 * (replicate (SIZE N) 0 ! IX N (i + 1) j -
                        replicate (SIZE N) 0 ! IX N (i - 1) j) * (1 / real N)) u = u"
    and "cells_upd N (\<lambda>i j old.
           old - 0.5 * (replicate (SIZE N) 0 ! IX N i (j + 1) -
                        replicate (SIZE N) 0 ! IX N i (j - 1)) * (1 / real N)) u = u"
proof -
  have z: "replicate (SIZE N) (0::real) ! IX N a c = 0" if "a \<le> N + 1" "c \<le> N + 1" for a c
    using IX_lt [OF that] by simp
  show "cells_upd N (\<lambda>i j old.
           old - 0.5 * (replicate (SIZE N) 0 ! IX N (i + 1) j -
                        replicate (SIZE N) 0 ! IX N (i - 1) j) * (1 / real N)) u = u"
    by (rule list_eq_IX [of _ N]) (use assms in \<open>auto simp add: cells_upd_nth z\<close>)
  show "cells_upd N (\<lambda>i j old.
           old - 0.5 * (replicate (SIZE N) 0 ! IX N i (j + 1) -
                        replicate (SIZE N) 0 ! IX N i (j - 1)) * (1 / real N)) u = u"
    by (rule list_eq_IX [of _ N]) (use assms in \<open>auto simp add: cells_upd_nth z\<close>)
qed

text \<open>
  C1, amended. \<^verbatim>\<open>project\<close> is called with four different arrays of the grid's size.
  When the ring of \<open>u\<close> is as \<^verbatim>\<open>setBoundary\<close> of kind 1 leaves it, the ring of \<open>v\<close> as
  kind 2 leaves it, and the discrete divergence of \<open>(u, v)\<close> is 0 in every interior cell,
  then \<^verbatim>\<open>project\<close> returns \<open>u\<close> and \<open>v\<close> as they were, and the divergence recomputed
  from them is 0 in every interior cell. This holds at resolution 4 and at every other
  resolution from 1 on.
\<close>

theorem project_divergence_free:
  assumes "distinct [u, v, p, dv]" "1 \<le> N"
    and "length (m u) = SIZE N" "length (m v) = SIZE N"
    and "length (m p) = SIZE N" "length (m dv) = SIZE N"
    and "set_bnd N 1 (m u) = m u" "set_bnd N 2 (m v) = m v"
    and "\<forall>i \<in> {1..N}. \<forall>j \<in> {1..N}. divergence_at N (m u) (m v) i j = 0"
    and "i \<in> {1..N}" "j \<in> {1..N}"
  shows "project N u v p dv m u = m u \<and> project N u v p dv m v = m v \<and>
         divergence_at N (project N u v p dv m u) (project N u v p dv m v) i j = 0"
proof -
  have d: "u \<noteq> v" "u \<noteq> p" "u \<noteq> dv" "v \<noteq> p" "v \<noteq> dv" "p \<noteq> dv"
    using assms(1) by auto
  have D: "div_arr N (m u) (m v) (m dv) = replicate (SIZE N) 0"
    by (rule div_arr_zero [OF assms(6,2,9)])
  have P: "pressure_arr N (div_arr N (m u) (m v) (m dv)) (m p) = replicate (SIZE N) 0"
    unfolding D by (rule pressure_arr_zero [OF assms(5,2)])
  have gu: "grad_u_arr N (replicate (SIZE N) 0) (m u) = m u"
    unfolding grad_u_arr_def grad_zero(1) [OF assms(3)] by (rule assms(7))
  have gv: "grad_v_arr N (replicate (SIZE N) 0) (m v) = m v"
    unfolding grad_v_arr_def grad_zero(2) [OF assms(4)] by (rule assms(8))
  have U: "project N u v p dv m u = m u"
    unfolding project_heap [OF assms(1)] P using d by (simp add: gu)
  have V: "project N u v p dv m v = m v"
    unfolding project_heap [OF assms(1)] P using d by (simp add: gv)
  show ?thesis
    unfolding U V using assms(9,10,11) by simp
qed

lemma ball_1_4: "(\<forall>i \<in> {1..4::nat}. Q i) \<longleftrightarrow> Q 1 \<and> Q 2 \<and> Q 3 \<and> Q 4"
proof -
  have "{1..4::nat} = {1, 2, 3, 4}" by auto
  then show ?thesis by simp
qed

lemma set_bnd_4:
  "set_bnd 4 b x =
     set_bnd_corners 4 (set_bnd_edges 4 b 4 (set_bnd_edges 4 b 3
       (set_bnd_edges 4 b 2 (set_bnd_edges 4 b 1 x))))"
  by (simp add: set_bnd_def upt_rec eval_nat_numeral)

theorem project_divergence_free_witness:
  "distinct [U, V, U0, V0] \<and> (1::nat) \<le> 4 \<and>
   length (alt_mem U) = SIZE 4 \<and> length (alt_mem V) = SIZE 4 \<and>
   length (alt_mem U0) = SIZE 4 \<and> length (alt_mem V0) = SIZE 4 \<and>
   set_bnd 4 1 (alt_mem U) = alt_mem U \<and> set_bnd 4 2 (alt_mem V) = alt_mem V \<and>
   divergence_at 4 (alt_mem U) (alt_mem V) 2 3 = 0 \<and>
   (2::nat) \<in> {1..4} \<and> (3::nat) \<in> {1..4} \<and>
   project 4 U V U0 V0 alt_mem U = alt_mem U \<and> project 4 U V U0 V0 alt_mem V = alt_mem V \<and>
   divergence_at 4 (project 4 U V U0 V0 alt_mem U) (project 4 U V U0 V0 alt_mem V) 2 3 = 0"
proof -
  have u: "alt_mem U = alt_cells" and v: "alt_mem V = replicate 36 0"
    and s: "alt_mem U0 = replicate 36 0" "alt_mem V0 = replicate 36 0"
    by (simp_all add: alt_mem_def)
  have z: "replicate 36 0 =
     [0, 0, 0, 0, 0, 0, 0, 0, 0, 0, 0, 0, 0, 0, 0, 0, 0, 0,
      0, 0, 0, 0, 0, 0, 0, 0, 0, 0, 0, 0, 0, 0, 0, 0, 0, 0 :: real]"
    by (simp add: numeral_eq_Suc)
  have h1: "distinct [U, V, U0, V0]" "(1::nat) \<le> 4" by simp_all
  have h2: "length (alt_mem U) = SIZE 4" "length (alt_mem V) = SIZE 4"
    "length (alt_mem U0) = SIZE 4" "length (alt_mem V0) = SIZE 4"
    by (simp_all add: u v s alt_cells_def SIZE_def CSB_def)
  have h3: "set_bnd 4 1 (alt_mem U) = alt_mem U"
    unfolding u set_bnd_4
    by (simp add: alt_cells_def set_bnd_edges_def set_bnd_corners_def Let_def IX_def CSB_def)
  have h4: "set_bnd 4 2 (alt_mem V) = alt_mem V"
    unfolding v z set_bnd_4
    by (simp add: set_bnd_edges_def set_bnd_corners_def Let_def IX_def CSB_def)
  have h5: "\<forall>i \<in> {1..4}. \<forall>j \<in> {1..4}. divergence_at 4 (alt_mem U) (alt_mem V) i j = 0"
    unfolding u v z ball_1_4
    by (simp add: divergence_at_def alt_cells_def IX_def CSB_def)
  have h6: "(2::nat) \<in> {1..4}" "(3::nat) \<in> {1..4}" by simp_all
  have h7: "divergence_at 4 (alt_mem U) (alt_mem V) 2 3 = 0"
    using h5 h6 by blast
  show ?thesis
    using h1 h2 h3 h4 h6 h7 project_divergence_free [OF h1 h2 h3 h4 h5 h6] by blast
qed

section \<open>Projection of a field with divergence\<close>

lemma list_update_Cons_numeral:
  "(x # xs)[numeral k := y] = x # xs[pred_numeral k := y]"
  by (simp add: numeral_eq_Suc)

lemma set_bnd_edges_upd2:
  "set_bnd_edges N b i x0 =
    upd2 (upd2 (upd2 (upd2 x0
       (IX N 0 i) (\<lambda>x. if b = 1 then - (x ! IX N 1 i) else x ! IX N 1 i))
       (IX N (N + 1) i) (\<lambda>x. if b = 1 then - (x ! IX N N i) else x ! IX N N i))
       (IX N i 0) (\<lambda>x. if b = 2 then - (x ! IX N i 1) else x ! IX N i 1))
       (IX N i (N + 1)) (\<lambda>x. if b = 2 then - (x ! IX N i N) else x ! IX N i N)"
  by (simp add: set_bnd_edges_def upd2_def Let_def)

lemma set_bnd_corners_upd2:
  "set_bnd_corners N x0 =
    upd2 (upd2 (upd2 (upd2 x0
      (IX N 0 0) (\<lambda>x. 0.5 * (x ! IX N 1 0 + x ! IX N 0 1)))
      (IX N 0 (N + 1)) (\<lambda>x. 0.5 * (x ! IX N 1 (N + 1) + x ! IX N 0 N)))
      (IX N (N + 1) 0) (\<lambda>x. 0.5 * (x ! IX N N 0 + x ! IX N (N + 1) 1)))
      (IX N (N + 1) (N + 1)) (\<lambda>x. 0.5 * (x ! IX N N (N + 1) + x ! IX N (N + 1) N))"
  by (simp add: set_bnd_corners_def upd2_def Let_def)

lemma forN_4: "forN 4 body s = body 4 (body 3 (body 2 (body 1 s)))"
  by (simp add: forN_def upt_rec eval_nat_numeral)

lemma cells_upd_4:
  "cells_upd 4 F x =
     forN 4 (\<lambda>i. forN 4 (\<lambda>j x. upd2 x (IX 4 i j) (\<lambda>x. F i j (x ! IX 4 i j)))) x"
  by (simp add: cells_upd_def upd2_def)

lemma lin_cell_arr_upd2:
  "lin_cell_arr N x0 a c i j x =
     upd2 x (IX N i j) (\<lambda>x. (x0 ! IX N i j +
          a * (x ! IX N (i - 1) j + x ! IX N (i + 1) j +
               x ! IX N i (j - 1) + x ! IX N i (j + 1))) * (1 / c))"
  by (simp add: lin_cell_arr_def upd2_def)

lemmas unroll_4 =
  forN_4 set_bnd_4 set_bnd_edges_upd2 set_bnd_corners_upd2 upd2_def IX_def CSB_def
  list_update_Cons_numeral

lemma bindr_cong: "val = val' \<Longrightarrow> bindr val f = bindr val' f"
  by simp

text \<open>
  One sweep of \<^verbatim>\<open>solveLinear\<close> with \<open>a = 1\<close>, \<open>c = 4\<close> and boundary kind 0 at
  resolution 4, on two lists of 36 cells: the cells in the order in which the loop
  writes them, every cell from the cells written before it.
\<close>

lemma sweep_4:
  "set_bnd 4 0 (lin_sweep_arr 4
     [d0, d1, d2, d3, d4, d5,
      d6, d7, d8, d9, d10, d11,
      d12, d13, d14, d15, d16, d17,
      d18, d19, d20, d21, d22, d23,
      d24, d25, d26, d27, d28, d29,
      d30, d31, d32, d33, d34, d35] 1 4
     [x0, x1, x2, x3, x4, x5,
      x6, x7, x8, x9, x10, x11,
      x12, x13, x14, x15, x16, x17,
      x18, x19, x20, x21, x22, x23,
      x24, x25, x26, x27, x28, x29,
      x30, x31, x32, x33, x34, x35]) =
     bindr ((d7 + 1 * (x6 + x8 + x1 + x13)) * (1 / 4)) (\<lambda>y7.
     bindr ((d13 + 1 * (x12 + x14 + y7 + x19)) * (1 / 4)) (\<lambda>y13.
     bindr ((d19 + 1 * (x18 + x20 + y13 + x25)) * (1 / 4)) (\<lambda>y19.
     bindr ((d25 + 1 * (x24 + x26 + y19 + x31)) * (1 / 4)) (\<lambda>y25.
     bindr ((d8 + 1 * (y7 + x9 + x2 + x14)) * (1 / 4)) (\<lambda>y8.
     bindr ((d14 + 1 * (y13 + x15 + y8 + x20)) * (1 / 4)) (\<lambda>y14.
     bindr ((d20 + 1 * (y19 + x21 + y14 + x26)) * (1 / 4)) (\<lambda>y20.
     bindr ((d26 + 1 * (y25 + x27 + y20 + x32)) * (1 / 4)) (\<lambda>y26.
     bindr ((d9 + 1 * (y8 + x10 + x3 + x15)) * (1 / 4)) (\<lambda>y9.
     bindr ((d15 + 1 * (y14 + x16 + y9 + x21)) * (1 / 4)) (\<lambda>y15.
     bindr ((d21 + 1 * (y20 + x22 + y15 + x27)) * (1 / 4)) (\<lambda>y21.
     bindr ((d27 + 1 * (y26 + x28 + y21 + x33)) * (1 / 4)) (\<lambda>y27.
     bindr ((d10 + 1 * (y9 + x11 + x4 + x16)) * (1 / 4)) (\<lambda>y10.
     bindr ((d16 + 1 * (y15 + x17 + y10 + x22)) * (1 / 4)) (\<lambda>y16.
     bindr ((d22 + 1 * (y21 + x23 + y16 + x28)) * (1 / 4)) (\<lambda>y22.
     bindr ((d28 + 1 * (y27 + x29 + y22 + x34)) * (1 / 4)) (\<lambda>y28.
     [0.5 * (y7 + y7), y7, y8, y9, y10, 0.5 * (y10 + y10),
      y7, y7, y8, y9, y10, y10,
      y13, y13, y14, y15, y16, y16,
      y19, y19, y20, y21, y22, y22,
      y25, y25, y26, y27, y28, y28,
      0.5 * (y25 + y25), y25, y26, y27, y28, 0.5 * (y28 + y28)]))))))))))))))))"
  by (simp add: lin_sweep_arr_def lin_cell_arr_upd2 unroll_4 bindr_def)

lemma funpow_5: "(f ^^ 5) x = f (f (f (f (f x))))"
  by (simp add: eval_nat_numeral)

lemma zeros_36:
  "replicate 36 (0::real) =
     [0, 0, 0, 0, 0, 0, 0, 0, 0, 0, 0, 0, 0, 0, 0, 0, 0, 0,
      0, 0, 0, 0, 0, 0, 0, 0, 0, 0, 0, 0, 0, 0, 0, 0, 0, 0]"
  by (simp add: numeral_eq_Suc)

lemma imp_div: "div_arr 4 imp_cells (replicate 36 0) (replicate 36 0) = imp_div"
  unfolding div_arr_def cells_upd_4 zeros_36 imp_cells_def imp_div_def
  by (simp add: unroll_4)

lemma imp_pressure_0:
  "set_bnd 4 0 (cells_upd 4 (\<lambda>i j old. 0) (replicate 36 0)) = replicate 36 0"
  unfolding cells_upd_4 zeros_36
  by (simp add: unroll_4)

lemma sweeps_5:
  "((\<lambda>x. set_bnd 4 0 (lin_sweep_arr 4 imp_div 1 4 x)) ^^ 5) (replicate 36 0) = imp_pressure_5"
  unfolding funpow_5 imp_div_def zeros_36 imp_pressure_5_def
  by (simp add: sweep_4 bindr_def cong: bindr_cong)

lemma sweeps_10:
  "((\<lambda>x. set_bnd 4 0 (lin_sweep_arr 4 imp_div 1 4 x)) ^^ 5) (imp_pressure_5) = imp_pressure_10"
  unfolding funpow_5 imp_div_def imp_pressure_5_def imp_pressure_10_def
  by (simp add: sweep_4 bindr_def cong: bindr_cong)

lemma sweeps_15:
  "((\<lambda>x. set_bnd 4 0 (lin_sweep_arr 4 imp_div 1 4 x)) ^^ 5) (imp_pressure_10) = imp_pressure_15"
  unfolding funpow_5 imp_div_def imp_pressure_10_def imp_pressure_15_def
  by (simp add: sweep_4 bindr_def cong: bindr_cong)

lemma sweeps_20:
  "((\<lambda>x. set_bnd 4 0 (lin_sweep_arr 4 imp_div 1 4 x)) ^^ 5) (imp_pressure_15) = imp_pressure_20"
  unfolding funpow_5 imp_div_def imp_pressure_15_def imp_pressure_20_def
  by (simp add: sweep_4 bindr_def cong: bindr_cong)

lemma imp_pressure: "pressure_arr 4 imp_div (replicate 36 0) = imp_pressure_20"
proof -
  let ?f = "\<lambda>x. set_bnd 4 0 (lin_sweep_arr 4 imp_div 1 4 x)"
  have "(?f ^^ 20) (replicate 36 0) = (?f ^^ 5 \<circ> ?f ^^ 5 \<circ> ?f ^^ 5 \<circ> ?f ^^ 5) (replicate 36 0)"
    by (simp add: funpow_add [symmetric])
  also have "\<dots> = imp_pressure_20"
    by (simp add: sweeps_5 sweeps_10 sweeps_15 sweeps_20)
  finally show ?thesis
    by (simp add: pressure_arr_def solve_arr_def imp_pressure_0)
qed

lemma imp_pressure_cells:
  "imp_pressure_20 ! 14 = - (28295894344917652623715 / 151115727451828646838272)" "imp_pressure_20 ! 16 = 4430382691554085171162397 / 9671406556917033397649408"
  "imp_pressure_20 ! 15 = 1696256908355591327390337 / 2417851639229258349412352" "imp_pressure_20 ! 17 = 4430382691554085171162397 / 9671406556917033397649408"
  "imp_pressure_20 ! 13 = - (169381188314034762122637 / 151115727451828646838272)"
  "imp_pressure_20 ! 9 = 180872600708113358236845 / 604462909807314587353088" "imp_pressure_20 ! 21 = 2298529544498960396242735 / 9671406556917033397649408"
  "imp_pressure_20 ! 27 = 2010360215127745107418175 / 19342813113834066795298816" "imp_pressure_20 ! 3 = 180872600708113358236845 / 604462909807314587353088"
  by (simp_all add: imp_pressure_20_def)

lemma grad_u_interior:
  assumes "length u = SIZE N" "1 \<le> i" "i \<le> N" "1 \<le> j" "j \<le> N"
  shows "grad_u_arr N p u ! IX N i j =
     u ! IX N i j - 0.5 * (p ! IX N (i + 1) j - p ! IX N (i - 1) j) * (1 / real N)"
  unfolding grad_u_arr_def using assms by (simp add: set_bnd_interior cells_upd_nth)

lemma grad_v_interior:
  assumes "length v = SIZE N" "1 \<le> i" "i \<le> N" "1 \<le> j" "j \<le> N"
  shows "grad_v_arr N p v ! IX N i j =
     v ! IX N i j - 0.5 * (p ! IX N i (j + 1) - p ! IX N i (j - 1)) * (1 / real N)"
  unfolding grad_v_arr_def using assms by (simp add: set_bnd_interior cells_upd_nth)

text \<open>
  C1, counterexample. At resolution 4 the horizontal velocity is 1 in the cell
  \<open>(2, 2)\<close> and 0 elsewhere, the vertical velocity is 0, and the two scratch arrays
  are 0. All four arrays have the grid's size. After \<^verbatim>\<open>project\<close> the divergence
  recomputed from the corrected velocity at the interior cell \<open>(3, 2)\<close> is
  \<open>95440540559992705247524217 / 77371252455336267181195264\<close>, about 1.23: its magnitude is not below \<open>1 / 1000\<close>.
\<close>

theorem project_divergence_remains:
  "length (imp_mem U) = SIZE 4 \<and> length (imp_mem V) = SIZE 4 \<and>
   length (imp_mem U0) = SIZE 4 \<and> length (imp_mem V0) = SIZE 4 \<and>
   divergence_at 4 (project 4 U V U0 V0 imp_mem U) (project 4 U V U0 V0 imp_mem V) 3 2 =
     95440540559992705247524217 / 77371252455336267181195264 \<and>
   \<not> \<bar>divergence_at 4 (project 4 U V U0 V0 imp_mem U) (project 4 U V U0 V0 imp_mem V) 3 2\<bar>
       < 1 / 1000"
proof -
  have m: "imp_mem U = imp_cells" "imp_mem V = replicate 36 0"
    "imp_mem U0 = replicate 36 0" "imp_mem V0 = replicate 36 0"
    by (simp_all add: imp_mem_def)
  have len: "length imp_cells = SIZE 4" "length (replicate 36 (0::real)) = SIZE 4"
    "SIZE 4 = 36"
    by (simp_all add: imp_cells_def SIZE_def CSB_def)
  have P: "pressure_arr 4 (div_arr 4 imp_cells (replicate 36 0) (replicate 36 0))
      (replicate 36 0) = imp_pressure_20"
    unfolding imp_div by (rule imp_pressure)
  have pu: "project 4 U V U0 V0 imp_mem U = grad_u_arr 4 imp_pressure_20 imp_cells"
    and pv: "project 4 U V U0 V0 imp_mem V = grad_v_arr 4 imp_pressure_20 (replicate 36 0)"
    by (simp_all add: project_heap P m)
  have ix: "IX 4 4 2 = 16" "IX 4 2 2 = 14" "IX 4 3 3 = 21" "IX 4 3 1 = 9"
    "IX 4 5 2 = 17" "IX 4 3 2 = 15" "IX 4 1 2 = 13" "IX 4 3 4 = 27" "IX 4 3 0 = 3"
    "IX 4 (Suc 0) 2 = 13"
    by (simp_all add: IX_def CSB_def)
  have c: "imp_cells ! 16 = 0" "imp_cells ! 14 = 1"
    "replicate 36 (0::real) ! 21 = 0" "replicate 36 (0::real) ! 9 = 0"
    by (simp_all add: imp_cells_def)
  have u42: "grad_u_arr 4 imp_pressure_20 imp_cells ! IX 4 4 2 = 2354644941868280138398951 / 77371252455336267181195264"
    by (subst grad_u_interior) (simp_all add: len ix c imp_pressure_cells del: One_nat_def)
  have u22: "grad_u_arr 4 imp_pressure_20 imp_cells ! IX 4 2 2 = 14936457192453919273946287 / 19342813113834066795298816"
    by (subst grad_u_interior) (simp_all add: len ix c imp_pressure_cells del: One_nat_def)
  have v33: "grad_v_arr 4 imp_pressure_20 (replicate 36 0) ! IX 4 3 3 = 11559695051716985511704521 / 154742504910672534362390528"
    by (subst grad_v_interior) (simp_all add: len ix c imp_pressure_cells del: One_nat_def)
  have v31: "grad_v_arr 4 imp_pressure_20 (replicate 36 0) ! IX 4 3 1 = - (972766505523137894442957 / 19342813113834066795298816)"
    by (subst grad_v_interior) (simp_all add: len ix c imp_pressure_cells del: One_nat_def)
  have n: "(3::nat) + 1 = 4" "(3::nat) - 1 = 2" "(2::nat) + 1 = 3" "(2::nat) - 1 = 1"
    by simp_all
  have val: "divergence_at 4 (project 4 U V U0 V0 imp_mem U)
      (project 4 U V U0 V0 imp_mem V) 3 2 = 95440540559992705247524217 / 77371252455336267181195264"
    unfolding pu pv divergence_at_def n u42 u22 v33 v31 by simp
  show ?thesis
    unfolding val by (simp add: m len)
qed

end
